theory Spec2Isabelle
  imports Complex_Main
begin

section \<open>Numbers and time\<close>

text \<open>
  A JavaScript number is modelled as a rational: every finite double is one, and the
  arithmetic the functions below perform on epoch milliseconds, attempt counters and
  array indices is exact on doubles in that range. \<open>NaN\<close> and the infinities are
  outside the model. \<open>Date.now()\<close> is an argument \<open>now\<close> of every function that
  reads the clock.
\<close>

type_synonym number = rat

section \<open>Rate-limit backoff (fetch wrapper)\<close>

definition RATE_LIMIT_BACKOFF_BASE_MS :: number where
  "RATE_LIMIT_BACKOFF_BASE_MS = 1000"

definition RATE_LIMIT_BACKOFF_MAX_MS :: number where
  "RATE_LIMIT_BACKOFF_MAX_MS = 60 * 60 * 1000"

text \<open>
  \<open>computeExponentialBackoffMs(attempt, baseMs, maxMs)\<close>:
  \<open>safeAttempt = Math.max(1, Math.floor(attempt))\<close>,
  \<open>multiplier = 2 ** (safeAttempt - 1)\<close>,
  result \<open>Math.min(maxMs, Math.max(0, Math.floor(baseMs * multiplier)))\<close>.
\<close>

definition computeExponentialBackoffMs :: "number \<Rightarrow> number \<Rightarrow> number \<Rightarrow> number" where
  "computeExponentialBackoffMs attempt baseMs maxMs =
     (let safeAttempt = max 1 \<lfloor>attempt\<rfloor>;
          multiplier = 2 ^ nat (safeAttempt - 1)
      in min maxMs (max 0 (of_int \<lfloor>baseMs * multiplier\<rfloor>)))"

text \<open>The call with both defaults, as the dispatch loop makes it.\<close>

definition backoffDefault :: "number \<Rightarrow> number" where
  "backoffDefault attempt =
     computeExponentialBackoffMs attempt RATE_LIMIT_BACKOFF_BASE_MS RATE_LIMIT_BACKOFF_MAX_MS"

section \<open>Account manager\<close>

datatype ModelFamily = Claude | GeminiFlash | GeminiPro

datatype AccountTier = Free | Paid

datatype SwitchReason = RateLimit | Initial | Rotation

record RefreshParts =
  refreshToken :: string
  projectId :: "string option"
  managedProjectId :: "string option"

text \<open>\<open>RateLimitState\<close>: one optional reset time per family; \<open>None\<close> is an absent key.\<close>

record RateLimitState =
  claude :: "number option"
  gemini_flash :: "number option"
  gemini_pro :: "number option"

record ManagedAccount =
  index :: int
  parts :: RefreshParts
  access :: "string option"
  expires :: "number option"
  rateLimitResetTimes :: RateLimitState
  lastUsed :: number
  email :: "string option"
  tier :: "AccountTier option"
  lastSwitchReason :: "SwitchReason option"

text \<open>The indexed read \<open>state[family]\<close> and the indexed write \<open>state[family] = t\<close>.\<close>

fun resetTimeOf :: "RateLimitState \<Rightarrow> ModelFamily \<Rightarrow> number option" where
  "resetTimeOf s Claude = claude s"
| "resetTimeOf s GeminiFlash = gemini_flash s"
| "resetTimeOf s GeminiPro = gemini_pro s"

fun setResetTime :: "RateLimitState \<Rightarrow> ModelFamily \<Rightarrow> number \<Rightarrow> RateLimitState" where
  "setResetTime s Claude t = s\<lparr>claude := Some t\<rparr>"
| "setResetTime s GeminiFlash t = s\<lparr>gemini_flash := Some t\<rparr>"
| "setResetTime s GeminiPro t = s\<lparr>gemini_pro := Some t\<rparr>"

definition isRateLimitedForFamily :: "number \<Rightarrow> ManagedAccount \<Rightarrow> ModelFamily \<Rightarrow> bool" where
  "isRateLimitedForFamily now account family =
     (case resetTimeOf (rateLimitResetTimes account) family of
        None \<Rightarrow> False
      | Some resetTime \<Rightarrow> now < resetTime)"

definition expired :: "number \<Rightarrow> number option \<Rightarrow> bool" where
  "expired now t = (case t of None \<Rightarrow> False | Some resetTime \<Rightarrow> now \<ge> resetTime)"

definition clearExpiredRateLimits :: "number \<Rightarrow> ManagedAccount \<Rightarrow> ManagedAccount" where
  "clearExpiredRateLimits now account =
     (let s0 = rateLimitResetTimes account;
          s1 = (if expired now (claude s0) then s0\<lparr>claude := None\<rparr> else s0);
          s2 = (if expired now (gemini_flash s1) then s1\<lparr>gemini_flash := None\<rparr> else s1);
          s3 = (if expired now (gemini_pro s2) then s2\<lparr>gemini_pro := None\<rparr> else s2)
      in account\<lparr>rateLimitResetTimes := s3\<rparr>)"

text \<open>
  The manager: the account array, the round-robin cursor \<open>currentIndex\<close> and the
  index of the current account (\<open>-1\<close> when unset). Account objects are shared by
  reference between the array and the values the methods return; the model names an
  object by its position in the array and returns the updated copy beside the new state.
\<close>

record AccountManager =
  accounts :: "ManagedAccount list"
  currentIndex :: nat
  currentAccountIndex :: int

definition getCurrentAccount :: "AccountManager \<Rightarrow> ManagedAccount option" where
  "getCurrentAccount m =
     (if currentAccountIndex m \<ge> 0 \<and> currentAccountIndex m < int (length (accounts m))
      then Some (accounts m ! nat (currentAccountIndex m))
      else None)"

definition getNextForFamily ::
  "number \<Rightarrow> ModelFamily \<Rightarrow> AccountManager \<Rightarrow> ManagedAccount option \<times> AccountManager" where
  "getNextForFamily now family m =
     (let available = filter (\<lambda>i. \<not> isRateLimitedForFamily now (accounts m ! i) family)
                        [0 ..< length (accounts m)]
      in if length available = 0 then (None, m)
         else
           let paidAvailable = filter (\<lambda>i. tier (accounts m ! i) = Some Paid) available;
               pool = (if length paidAvailable > 0 then paidAvailable else available);
               k = currentIndex m mod length pool
           in if \<not> k < length pool then (None, m)
              else
                let i = pool ! k;
                    account = (accounts m ! i)\<lparr>lastUsed := now\<rparr>
                in (Some account,
                    m\<lparr>accounts := (accounts m)[i := account],
                      currentIndex := currentIndex m + 1\<rparr>))"

definition getCurrentOrNextForFamily ::
  "number \<Rightarrow> ModelFamily \<Rightarrow> AccountManager \<Rightarrow> ManagedAccount option \<times> AccountManager" where
  "getCurrentOrNextForFamily now family m0 =
     (let m = m0\<lparr>accounts := map (clearExpiredRateLimits now) (accounts m0)\<rparr>;
          fallThrough =
            (case getNextForFamily now family m of
               (None, m') \<Rightarrow> (None, m')
             | (Some next, m') \<Rightarrow> (Some next, m'\<lparr>currentAccountIndex := index next\<rparr>))
      in case getCurrentAccount m of
           None \<Rightarrow> fallThrough
         | Some current \<Rightarrow>
             if \<not> isRateLimitedForFamily now current family then
               let betterTierAvailable =
                     (tier current \<noteq> Some Paid \<and>
                      list_ex (\<lambda>a. tier a = Some Paid \<and> \<not> isRateLimitedForFamily now a family)
                        (accounts m))
               in if \<not> betterTierAvailable then
                    let current' = current\<lparr>lastUsed := now\<rparr>
                    in (Some current',
                        m\<lparr>accounts := (accounts m)[nat (currentAccountIndex m) := current']\<rparr>)
                  else fallThrough
             else fallThrough)"

text \<open>
  \<open>markRateLimited(account, retryAfterMs, family)\<close> writes one key of the account
  object; \<open>markRateLimitedAt\<close> is the same write on the object at position \<open>i\<close> of
  the manager's array.
\<close>

definition markRateLimited ::
  "number \<Rightarrow> ManagedAccount \<Rightarrow> number \<Rightarrow> ModelFamily \<Rightarrow> ManagedAccount" where
  "markRateLimited now account retryAfterMs family =
     account\<lparr>rateLimitResetTimes :=
       setResetTime (rateLimitResetTimes account) family (now + retryAfterMs)\<rparr>"

definition markRateLimitedAt ::
  "number \<Rightarrow> nat \<Rightarrow> number \<Rightarrow> ModelFamily \<Rightarrow> AccountManager \<Rightarrow> AccountManager" where
  "markRateLimitedAt now i retryAfterMs family m =
     m\<lparr>accounts := (accounts m)[i := markRateLimited now (accounts m ! i) retryAfterMs family]\<rparr>"

text \<open>A run of selection calls, one per clock reading, collecting what each returns.\<close>

fun selectRepeatedly ::
  "ModelFamily \<Rightarrow> number list \<Rightarrow> AccountManager \<Rightarrow> ManagedAccount option list \<times> AccountManager" where
  "selectRepeatedly family [] m = ([], m)"
| "selectRepeatedly family (now # ts) m =
     (case getCurrentOrNextForFamily now family m of
        (r, m') \<Rightarrow> (case selectRepeatedly family ts m' of (rs, m'') \<Rightarrow> (r # rs, m'')))"

text \<open>\<open>addAccount(parts, access, expires, email, tier)\<close> appends a fresh account.\<close>

definition emptyRateLimitState :: RateLimitState where
  "emptyRateLimitState = \<lparr>claude = None, gemini_flash = None, gemini_pro = None\<rparr>"

definition addAccount ::
  "RefreshParts \<Rightarrow> string option \<Rightarrow> number option \<Rightarrow> string option \<Rightarrow> AccountTier option
   \<Rightarrow> AccountManager \<Rightarrow> AccountManager" where
  "addAccount ps acc expiry em tr m =
     m\<lparr>accounts := accounts m @
        [\<lparr>index = int (length (accounts m)), parts = ps, access = acc, expires = expiry,
          rateLimitResetTimes = emptyRateLimitState, lastUsed = 0, email = em, tier = tr,
          lastSwitchReason = None\<rparr>]\<rparr>"

text \<open>
  An account \<open>a'\<close> is a later state of \<open>a\<close> under selection calls: same index and
  tier, and rate-limited only where \<open>a\<close> was.
\<close>

definition evolvedFrom :: "ManagedAccount \<Rightarrow> ManagedAccount \<Rightarrow> bool" where
  "evolvedFrom a a' \<longleftrightarrow> index a' = index a \<and> tier a' = tier a \<and>
     (\<forall>t f. isRateLimitedForFamily t a' f \<longrightarrow> isRateLimitedForFamily t a f)"

text \<open>Two-account managers in the shape of the tier tests: account 0 is current.\<close>

definition twoAccounts :: "AccountTier \<Rightarrow> AccountTier \<Rightarrow> AccountManager" where
  "twoAccounts tier0 tier1 =
     addAccount \<lparr>refreshToken = ''refresh_2'', projectId = Some ''proj_2'', managedProjectId = None\<rparr>
       (Some ''access_2'') (Some 3600) (Some ''second@example.com'') (Some tier1)
       (addAccount \<lparr>refreshToken = ''1//refresh_token_1'', projectId = None, managedProjectId = None\<rparr>
          (Some ''access_token_1'') (Some 3600) (Some ''first@example.com'') (Some tier0)
          \<lparr>accounts = [], currentIndex = 0, currentAccountIndex = 0\<rparr>)"

section \<open>Strings\<close>

text \<open>
  A string is a list of code units; the model has the units below 256. \<open>jsSplit sep s\<close>
  is \<open>s.split(sep)\<close> for a non-empty separator: the occurrences of \<open>sep\<close> are found
  from the left and do not overlap. \<open>jsJoin sep xs\<close> is \<open>xs.join(sep)\<close> and
  \<open>jsTrim s\<close> is \<open>s.trim()\<close>.
\<close>

function jsSplitFrom :: "string \<Rightarrow> string \<Rightarrow> string \<Rightarrow> string list" where
  "jsSplitFrom sep cur s =
     (if s = [] then [cur]
      else if sep \<noteq> [] \<and> take (length sep) s = sep
        then cur # jsSplitFrom sep [] (drop (length sep) s)
        else jsSplitFrom sep (cur @ [hd s]) (tl s))"
  by pat_completeness auto
termination
  by (relation "measure (\<lambda>(sep, cur, s). length s)") auto

declare jsSplitFrom.simps [simp del]

definition jsSplit :: "string \<Rightarrow> string \<Rightarrow> string list" where
  "jsSplit sep s = jsSplitFrom sep [] s"

fun jsJoin :: "string \<Rightarrow> string list \<Rightarrow> string" where
  "jsJoin sep [] = []"
| "jsJoin sep [x] = x"
| "jsJoin sep (x # y # ys) = x @ sep @ jsJoin sep (y # ys)"

definition isWhiteSpace :: "char \<Rightarrow> bool" where
  "isWhiteSpace c \<longleftrightarrow>
     of_char c \<in> {9, 10, 11, 12, 13, 32, 160 :: nat}"

definition jsTrim :: "string \<Rightarrow> string" where
  "jsTrim s = rev (dropWhile isWhiteSpace (rev (dropWhile isWhiteSpace s)))"

section \<open>Credential codec (auth)\<close>

definition ACCOUNT_SEPARATOR :: string where
  "ACCOUNT_SEPARATOR = ''||''"

text \<open>
  The array destructuring with defaults
  \<open>[refreshToken = "", projectId = "", managedProjectId = ""] = refresh.split("|")\<close>
  reads position \<open>i\<close> or takes \<open>""\<close> when the array is shorter.
\<close>

definition segmentOr :: "string list \<Rightarrow> nat \<Rightarrow> string" where
  "segmentOr segs i = (if i < length segs then segs ! i else [])"

text \<open>\<open>v || undefined\<close> on a string: the empty string becomes \<open>undefined\<close>.\<close>

definition orUndefined :: "string \<Rightarrow> string option" where
  "orUndefined v = (if v = [] then None else Some v)"

definition parseRefreshParts :: "string \<Rightarrow> RefreshParts" where
  "parseRefreshParts refresh =
     (let segs = jsSplit ''|'' refresh
      in \<lparr>refreshToken = segmentOr segs 0,
          projectId = orUndefined (segmentOr segs 1),
          managedProjectId = orUndefined (segmentOr segs 2)\<rparr>)"

definition formatRefreshParts :: "RefreshParts \<Rightarrow> string" where
  "formatRefreshParts ps =
     (let projectSegment = (case projectId ps of None \<Rightarrow> [] | Some p \<Rightarrow> p);
          base = refreshToken ps @ ''|'' @ projectSegment
      in case managedProjectId ps of
           None \<Rightarrow> base
         | Some mp \<Rightarrow> if mp \<noteq> [] then base @ ''|'' @ mp else base)"

text \<open>
  \<open>MultiAccountRefreshParts\<close> is an object with the one field \<open>accounts\<close>; the model
  passes the array itself.
\<close>

definition parseMultiAccountRefresh :: "string \<Rightarrow> RefreshParts list" where
  "parseMultiAccountRefresh refresh =
     (if refresh = [] then []
      else
        let accountStrings = filter (\<lambda>s. jsTrim s \<noteq> []) (jsSplit ACCOUNT_SEPARATOR refresh)
        in if length accountStrings = 0 then []
           else map parseRefreshParts accountStrings)"

definition formatMultiAccountRefresh :: "RefreshParts list \<Rightarrow> string" where
  "formatMultiAccountRefresh ps =
     jsJoin ACCOUNT_SEPARATOR (filter (\<lambda>s. jsTrim s \<noteq> []) (map formatRefreshParts ps))"

text \<open>
  The serialized forms of the data model: \<open>refreshToken|projectId\<close>, or
  \<open>refreshToken|projectId|managedProjectId\<close> with a non-empty last segment. In terms
  of the string: one bar, or two bars and no bar at the end.
\<close>

definition wellFormedSingle :: "string \<Rightarrow> bool" where
  "wellFormedSingle x \<longleftrightarrow>
     count_list x (CHR ''|'') = 1 \<or> (count_list x (CHR ''|'') = 2 \<and> last x \<noteq> CHR ''|'')"

text \<open>\<open>containsSeparator x\<close>: the two-character separator occurs somewhere in \<open>x\<close>.\<close>

fun containsSeparator :: "string \<Rightarrow> bool" where
  "containsSeparator (a # b # cs) =
     ((a = CHR ''|'' \<and> b = CHR ''|'') \<or> containsSeparator (b # cs))"
| "containsSeparator _ = False"

section \<open>JavaScript values\<close>

text \<open>
  The values that \<open>JSON.parse\<close> returns and the objects the code builds from them.
  An object is its list of own properties in insertion order; a property whose value is
  \<open>JUndefined\<close> is one that was written with \<open>undefined\<close>.
\<close>

datatype jsval =
    JUndefined
  | JNull
  | JBool bool
  | JNum number
  | JStr string
  | JArr "jsval list"
  | JObj "(string \<times> jsval) list"

datatype exn = ENOENT | IOError | SyntaxError | TypeError

text \<open>
  \<open>v.k\<close>: reading a property of \<open>null\<close> or \<open>undefined\<close> throws a TypeError;
  a missing property, and any of the property names used here on a primitive or an array,
  reads as \<open>undefined\<close>.
\<close>

fun getProp :: "jsval \<Rightarrow> string \<Rightarrow> exn + jsval" where
  "getProp JUndefined k = Inl TypeError"
| "getProp JNull k = Inl TypeError"
| "getProp (JObj kvs) k = Inr (case map_of kvs k of None \<Rightarrow> JUndefined | Some v \<Rightarrow> v)"
| "getProp v k = Inr JUndefined"

text \<open>\<open>obj.k = v\<close> on an object: an existing property keeps its place.\<close>

fun setField :: "(string \<times> jsval) list \<Rightarrow> string \<Rightarrow> jsval \<Rightarrow> (string \<times> jsval) list" where
  "setField [] k v = [(k, v)]"
| "setField ((k', v') # kvs) k v =
     (if k' = k then (k, v) # kvs else (k', v') # setField kvs k v)"

fun setProp :: "jsval \<Rightarrow> string \<Rightarrow> jsval \<Rightarrow> jsval" where
  "setProp (JObj kvs) k v = JObj (setField kvs k v)"
| "setProp x k v = x"

fun truthy :: "jsval \<Rightarrow> bool" where
  "truthy JUndefined = False"
| "truthy JNull = False"
| "truthy (JBool b) = b"
| "truthy (JNum n) = (n \<noteq> 0)"
| "truthy (JStr s) = (s \<noteq> [])"
| "truthy (JArr xs) = True"
| "truthy (JObj kvs) = True"

fun isArray :: "jsval \<Rightarrow> bool" where
  "isArray (JArr xs) = True"
| "isArray v = False"

fun isObject :: "jsval \<Rightarrow> bool" where
  "isObject (JObj kvs) = True"
| "isObject v = False"

fun elements :: "jsval \<Rightarrow> jsval list" where
  "elements (JArr xs) = xs"
| "elements v = []"

text \<open>\<open>Object.keys(o).length\<close> of an object.\<close>

fun keyCount :: "jsval \<Rightarrow> nat" where
  "keyCount (JObj kvs) = length kvs"
| "keyCount v = 0"

text \<open>\<open>xs.map(f)\<close> where \<open>f\<close> may throw: the first exception ends the map.\<close>

fun mapE :: "('a \<Rightarrow> exn + 'b) \<Rightarrow> 'a list \<Rightarrow> exn + 'b list" where
  "mapE f [] = Inr []"
| "mapE f (x # xs) =
     (case f x of
        Inl e \<Rightarrow> Inl e
      | Inr y \<Rightarrow> (case mapE f xs of Inl e \<Rightarrow> Inl e | Inr ys \<Rightarrow> Inr (y # ys)))"

text \<open>Sequencing of a step that may throw.\<close>

definition thenE :: "exn + 'a \<Rightarrow> ('a \<Rightarrow> exn + 'b) \<Rightarrow> exn + 'b" where
  "thenE r f = (case r of Inl e \<Rightarrow> Inl e | Inr v \<Rightarrow> f v)"

section \<open>Persistent account store (storage)\<close>

text \<open>
  The storage file: missing, unreadable for another reason, or holding a text. The
  flag \<open>writable\<close> says whether \<open>mkdir\<close> and \<open>writeFile\<close> succeed, and
  \<open>saveCalls\<close> records every invocation of \<open>saveAccounts\<close> with its argument.
  \<open>JSON.parse\<close> and \<open>JSON.stringify\<close> are the arguments \<open>parse\<close> (\<open>None\<close> when it
  throws a SyntaxError) and \<open>stringify\<close>. Logging has no effect on the result and is left
  out.
\<close>

datatype fileContent = Missing | Unreadable | Text string

record fileSystem =
  fileState :: fileContent
  writable :: bool
  saveCalls :: "jsval list"

fun readFile :: "fileSystem \<Rightarrow> exn + string" where
  "readFile fs =
     (case fileState fs of Missing \<Rightarrow> Inl ENOENT | Unreadable \<Rightarrow> Inl IOError | Text s \<Rightarrow> Inr s)"

definition saveAccounts :: "(jsval \<Rightarrow> string) \<Rightarrow> jsval \<Rightarrow> fileSystem \<Rightarrow> (exn + unit) \<times> fileSystem" where
  "saveAccounts stringify storage fs =
     (let fs1 = fs\<lparr>saveCalls := saveCalls fs @ [storage]\<rparr>
      in if writable fs1 then (Inr (), fs1\<lparr>fileState := Text (stringify storage)\<rparr>)
         else (Inl IOError, fs1))"

text \<open>The body of the callback of \<open>migrateV1ToV2\<close> for one account.\<close>

definition migrateAccountV1 :: "jsval \<Rightarrow> exn + jsval" where
  "migrateAccountV1 acc =
     thenE (getProp acc ''isRateLimited'') (\<lambda>isRateLimited.
     thenE (getProp acc ''rateLimitResetTime'') (\<lambda>rateLimitResetTime.
     thenE (getProp acc ''email'') (\<lambda>email.
     thenE (getProp acc ''refreshToken'') (\<lambda>refreshToken.
     thenE (getProp acc ''projectId'') (\<lambda>projectId.
     thenE (getProp acc ''managedProjectId'') (\<lambda>managedProjectId.
     thenE (getProp acc ''addedAt'') (\<lambda>addedAt.
     thenE (getProp acc ''lastUsed'') (\<lambda>lastUsed.
     thenE (getProp acc ''lastSwitchReason'') (\<lambda>lastSwitchReason.
       let rateLimitResetTimes =
             (if truthy isRateLimited \<and> truthy rateLimitResetTime
              then JObj [(''claude'', rateLimitResetTime), (''gemini'', rateLimitResetTime)]
              else JObj [])
       in Inr (JObj
            [(''email'', email),
             (''refreshToken'', refreshToken),
             (''projectId'', projectId),
             (''managedProjectId'', managedProjectId),
             (''addedAt'', addedAt),
             (''lastUsed'', lastUsed),
             (''lastSwitchReason'', lastSwitchReason),
             (''rateLimitResetTimes'',
                if keyCount rateLimitResetTimes > 0 then rateLimitResetTimes
                else JUndefined)]))))))))))"

definition migrateV1ToV2 :: "jsval \<Rightarrow> exn + jsval" where
  "migrateV1ToV2 v1 =
     thenE (getProp v1 ''accounts'') (\<lambda>accs.
     thenE (mapE migrateAccountV1 (elements accs)) (\<lambda>accs'.
     thenE (getProp v1 ''activeIndex'') (\<lambda>activeIndex.
       Inr (JObj [(''version'', JNum 2), (''accounts'', JArr accs'),
                  (''activeIndex'', activeIndex)]))))"

text \<open>The body of the callback of \<open>migrateV2ToV3\<close> for one account.\<close>

definition migrateAccountV2 :: "jsval \<Rightarrow> exn + jsval" where
  "migrateAccountV2 acc =
     thenE (getProp acc ''rateLimitResetTimes'') (\<lambda>old.
     thenE (if truthy old then getProp old ''claude'' else Inr JUndefined) (\<lambda>oldClaude.
     thenE (if truthy old then getProp old ''gemini'' else Inr JUndefined) (\<lambda>oldGemini.
     thenE (getProp acc ''email'') (\<lambda>email.
     thenE (getProp acc ''refreshToken'') (\<lambda>refreshToken.
     thenE (getProp acc ''projectId'') (\<lambda>projectId.
     thenE (getProp acc ''managedProjectId'') (\<lambda>managedProjectId.
     thenE (getProp acc ''addedAt'') (\<lambda>addedAt.
     thenE (getProp acc ''lastUsed'') (\<lambda>lastUsed.
     thenE (getProp acc ''lastSwitchReason'') (\<lambda>lastSwitchReason.
       let r0 = [];
           r1 = (if truthy old \<and> oldClaude \<noteq> JUndefined
                 then r0 @ [(''claude'', oldClaude)] else r0);
           r2 = (if truthy old \<and> oldGemini \<noteq> JUndefined
                 then r1 @ [(''gemini-flash'', oldGemini), (''gemini-pro'', oldGemini)] else r1);
           rateLimitResetTimes = JObj r2
       in Inr (JObj
            [(''email'', email),
             (''refreshToken'', refreshToken),
             (''projectId'', projectId),
             (''managedProjectId'', managedProjectId),
             (''addedAt'', addedAt),
             (''lastUsed'', lastUsed),
             (''lastSwitchReason'', lastSwitchReason),
             (''rateLimitResetTimes'',
                if keyCount rateLimitResetTimes > 0 then rateLimitResetTimes
                else JUndefined)])))))))))))"

definition migrateV2ToV3 :: "jsval \<Rightarrow> exn + jsval" where
  "migrateV2ToV3 v2 =
     thenE (getProp v2 ''accounts'') (\<lambda>accs.
     thenE (mapE migrateAccountV2 (elements accs)) (\<lambda>accs'.
     thenE (getProp v2 ''activeIndex'') (\<lambda>activeIndex.
       Inr (JObj [(''version'', JNum 3), (''accounts'', JArr accs'),
                  (''activeIndex'', activeIndex)]))))"

text \<open>\<open>typeof v === "number" && Number.isInteger(v)\<close>.\<close>

fun isIntegerNumber :: "jsval \<Rightarrow> bool" where
  "isIntegerNumber (JNum n) = (of_int \<lfloor>n\<rfloor> = n)"
| "isIntegerNumber v = False"

fun numberOf :: "jsval \<Rightarrow> number" where
  "numberOf (JNum n) = n"
| "numberOf v = 0"

text \<open>
  The two \<open>activeIndex\<close> repairs at the end of \<open>loadAccounts\<close>. The second
  comparison runs on a number: the first repair has made it one.
\<close>

definition clampActiveIndex :: "jsval \<Rightarrow> exn + jsval" where
  "clampActiveIndex storage =
     thenE (getProp storage ''activeIndex'') (\<lambda>a0.
       let s1 = (if \<not> isIntegerNumber a0 then setProp storage ''activeIndex'' (JNum 0)
                 else storage)
       in thenE (getProp s1 ''activeIndex'') (\<lambda>a1.
          thenE (getProp s1 ''accounts'') (\<lambda>accs.
            Inr (if numberOf a1 < 0 \<or> numberOf a1 \<ge> of_nat (length (elements accs))
                 then setProp s1 ''activeIndex'' (JNum 0)
                 else s1))))"

text \<open>The \<open>try\<close> block of \<open>loadAccounts\<close>.\<close>

definition loadAccountsTry ::
  "(string \<Rightarrow> jsval option) \<Rightarrow> (jsval \<Rightarrow> string) \<Rightarrow> fileSystem \<Rightarrow> (exn + jsval) \<times> fileSystem" where
  "loadAccountsTry parse stringify fs =
     (case readFile fs of
        Inl e \<Rightarrow> (Inl e, fs)
      | Inr content \<Rightarrow>
          (case parse content of
             None \<Rightarrow> (Inl SyntaxError, fs)
           | Some data \<Rightarrow>
               (case getProp data ''accounts'' of
                  Inl e \<Rightarrow> (Inl e, fs)
                | Inr accs \<Rightarrow>
                    if \<not> isArray accs then (Inr JNull, fs)
                    else
                      (case getProp data ''version'' of
                         Inl e \<Rightarrow> (Inl e, fs)
                       | Inr version \<Rightarrow>
                           if version = JNum 1 then
                             (case thenE (migrateV1ToV2 data) migrateV2ToV3 of
                                Inl e \<Rightarrow> (Inl e, fs)
                              | Inr storage \<Rightarrow>
                                  (case saveAccounts stringify storage fs of
                                     (Inl e, fs') \<Rightarrow> (Inl e, fs')
                                   | (Inr u, fs') \<Rightarrow> (clampActiveIndex storage, fs')))
                           else if version = JNum 2 then
                             (case migrateV2ToV3 data of
                                Inl e \<Rightarrow> (Inl e, fs)
                              | Inr storage \<Rightarrow>
                                  (case saveAccounts stringify storage fs of
                                     (Inl e, fs') \<Rightarrow> (Inl e, fs')
                                   | (Inr u, fs') \<Rightarrow> (clampActiveIndex storage, fs')))
                           else if version = JNum 3 then (clampActiveIndex data, fs)
                           else (Inr JNull, fs)))))"

text \<open>
  \<open>loadAccounts\<close>: the \<open>catch\<close> clause returns \<open>null\<close> for \<open>ENOENT\<close> and,
  after logging, for every other exception.
\<close>

definition loadAccounts ::
  "(string \<Rightarrow> jsval option) \<Rightarrow> (jsval \<Rightarrow> string) \<Rightarrow> fileSystem \<Rightarrow> (exn + jsval) \<times> fileSystem" where
  "loadAccounts parse stringify fs =
     (case loadAccountsTry parse stringify fs of
        (Inl e, fs') \<Rightarrow> (if e = ENOENT then Inr JNull else Inr JNull, fs')
      | (Inr v, fs') \<Rightarrow> (Inr v, fs'))"

text \<open>The documents of the migration tests, and a parser that knows their texts.\<close>

definition v1Document :: jsval where
  "v1Document = JObj
     [(''version'', JNum 1), (''activeIndex'', JNum 0),
      (''accounts'', JArr
         [JObj [(''email'', JStr ''test@example.com''), (''refreshToken'', JStr ''token1''),
                (''projectId'', JStr ''project1''), (''addedAt'', JNum 1000), (''lastUsed'', JNum 1000),
                (''isRateLimited'', JBool True), (''rateLimitResetTime'', JNum 61000)],
          JObj [(''email'', JStr ''test2@example.com''), (''refreshToken'', JStr ''token2''),
                (''projectId'', JStr ''project2''), (''addedAt'', JNum 1000), (''lastUsed'', JNum 1000),
                (''isRateLimited'', JBool False)]])]"

definition v1ZeroDocument :: jsval where
  "v1ZeroDocument = JObj
     [(''version'', JNum 1), (''activeIndex'', JNum 0),
      (''accounts'', JArr
         [JObj [(''refreshToken'', JStr ''token1''), (''addedAt'', JNum 0), (''lastUsed'', JNum 0),
                (''isRateLimited'', JBool True), (''rateLimitResetTime'', JNum 0)]])]"

definition v2Document :: jsval where
  "v2Document = JObj
     [(''version'', JNum 2), (''activeIndex'', JNum 1),
      (''accounts'', JArr
         [JObj [(''refreshToken'', JStr ''token1''), (''addedAt'', JNum 1000), (''lastUsed'', JNum 1000),
                (''rateLimitResetTimes'', JObj [(''gemini'', JNum 61000)])],
          JObj [(''refreshToken'', JStr ''token2''), (''addedAt'', JNum 1000),
                (''lastUsed'', JNum 1000)]])]"

definition v3Document :: jsval where
  "v3Document = JObj
     [(''version'', JNum 3), (''activeIndex'', JNum 1),
      (''accounts'', JArr
         [JObj [(''refreshToken'', JStr ''token1''), (''addedAt'', JNum 1000), (''lastUsed'', JNum 1000),
                (''rateLimitResetTimes'',
                   JObj [(''claude'', JNum 61000), (''gemini-flash'', JNum 61000)])],
          JObj [(''refreshToken'', JStr ''token2''), (''addedAt'', JNum 1000),
                (''lastUsed'', JNum 1000)]])]"

definition testParse :: "string \<Rightarrow> jsval option" where
  "testParse s =
     (if s = ''v1'' then Some v1Document
      else if s = ''v1zero'' then Some v1ZeroDocument
      else if s = ''v2'' then Some v2Document
      else if s = ''v3'' then Some v3Document
      else if s = ''v999'' then Some (JObj [(''version'', JNum 999), (''activeIndex'', JNum 0),
                                            (''accounts'', JArr [])])
      else if s = ''null'' then Some JNull
      else None)"

definition testStringify :: "jsval \<Rightarrow> string" where
  "testStringify v = ''saved''"

definition fileWith :: "string \<Rightarrow> bool \<Rightarrow> fileSystem" where
  "fileWith s w = \<lparr>fileState = Text s, writable = w, saveCalls = []\<rparr>"

text \<open>
  \<open>nullish v\<close>: \<open>v\<close> is \<open>null\<close> or \<open>undefined\<close>, the values whose properties
  cannot be read. \<open>propOf v k\<close> is the value of \<open>v.k\<close> when the read does not throw.
\<close>

fun nullish :: "jsval \<Rightarrow> bool" where
  "nullish JUndefined = True"
| "nullish JNull = True"
| "nullish v = False"

definition propOf :: "jsval \<Rightarrow> string \<Rightarrow> jsval" where
  "propOf v k = (case getProp v k of Inl e \<Rightarrow> JUndefined | Inr x \<Rightarrow> x)"

text \<open>
  The rate-limit object each migration step computes for one account, as a function of
  what it reads: \<open>legacyResetTimes\<close> from a v1 account, \<open>splitGemini\<close> from the
  \<open>rateLimitResetTimes\<close> of a v2 account.
\<close>

definition legacyResetTimes :: "jsval \<Rightarrow> jsval" where
  "legacyResetTimes acc =
     (if truthy (propOf acc ''isRateLimited'') \<and> truthy (propOf acc ''rateLimitResetTime'')
      then JObj [(''claude'', propOf acc ''rateLimitResetTime''),
                 (''gemini'', propOf acc ''rateLimitResetTime'')]
      else JUndefined)"

definition splitGemini :: "jsval \<Rightarrow> jsval" where
  "splitGemini old =
     (let r1 = (if truthy old \<and> propOf old ''claude'' \<noteq> JUndefined
                then [(''claude'', propOf old ''claude'')] else []);
          r2 = (if truthy old \<and> propOf old ''gemini'' \<noteq> JUndefined
                then r1 @ [(''gemini-flash'', propOf old ''gemini''),
                           (''gemini-pro'', propOf old ''gemini'')]
                else r1)
      in if length r2 > 0 then JObj r2 else JUndefined)"

text \<open>The value \<open>activeIndex\<close> has after the two repairs, for \<open>n\<close> accounts.\<close>

definition repairedIndex :: "jsval \<Rightarrow> nat \<Rightarrow> jsval" where
  "repairedIndex a n =
     (if isIntegerNumber a \<and> 0 \<le> numberOf a \<and> numberOf a < of_nat n then a else JNum 0)"

text \<open>What the v2 test document becomes, and the v1 test document.\<close>

definition v2Upgraded :: jsval where
  "v2Upgraded = JObj
     [(''version'', JNum 3),
      (''accounts'', JArr
         [JObj [(''email'', JUndefined), (''refreshToken'', JStr ''token1''),
                (''projectId'', JUndefined), (''managedProjectId'', JUndefined),
                (''addedAt'', JNum 1000), (''lastUsed'', JNum 1000),
                (''lastSwitchReason'', JUndefined),
                (''rateLimitResetTimes'',
                   JObj [(''gemini-flash'', JNum 61000), (''gemini-pro'', JNum 61000)])],
          JObj [(''email'', JUndefined), (''refreshToken'', JStr ''token2''),
                (''projectId'', JUndefined), (''managedProjectId'', JUndefined),
                (''addedAt'', JNum 1000), (''lastUsed'', JNum 1000),
                (''lastSwitchReason'', JUndefined), (''rateLimitResetTimes'', JUndefined)]]),
      (''activeIndex'', JNum 1)]"

definition v1Upgraded :: jsval where
  "v1Upgraded = JObj
     [(''version'', JNum 3),
      (''accounts'', JArr
         [JObj [(''email'', JStr ''test@example.com''), (''refreshToken'', JStr ''token1''),
                (''projectId'', JStr ''project1''), (''managedProjectId'', JUndefined),
                (''addedAt'', JNum 1000), (''lastUsed'', JNum 1000),
                (''lastSwitchReason'', JUndefined),
                (''rateLimitResetTimes'',
                   JObj [(''claude'', JNum 61000), (''gemini-flash'', JNum 61000),
                         (''gemini-pro'', JNum 61000)])],
          JObj [(''email'', JStr ''test2@example.com''), (''refreshToken'', JStr ''token2''),
                (''projectId'', JStr ''project2''), (''managedProjectId'', JUndefined),
                (''addedAt'', JNum 1000), (''lastUsed'', JNum 1000),
                (''lastSwitchReason'', JUndefined), (''rateLimitResetTimes'', JUndefined)]]),
      (''activeIndex'', JNum 0)]"

text \<open>
  \<open>arr[i]\<close>, and the expression \<open>storage.accounts[i].rateLimitResetTimes\<close> on what
  \<open>loadAccounts\<close> returns, as the migration tests read it.
\<close>

definition elementAt :: "jsval \<Rightarrow> nat \<Rightarrow> jsval" where
  "elementAt v i = (if i < length (elements v) then elements v ! i else JUndefined)"

definition loadedVersion ::
  "(string \<Rightarrow> jsval option) \<Rightarrow> (jsval \<Rightarrow> string) \<Rightarrow> fileSystem \<Rightarrow> exn + jsval" where
  "loadedVersion parse stringify fs =
     thenE (fst (loadAccounts parse stringify fs)) (\<lambda>storage. getProp storage ''version'')"

definition loadedResetTimes ::
  "(string \<Rightarrow> jsval option) \<Rightarrow> (jsval \<Rightarrow> string) \<Rightarrow> fileSystem \<Rightarrow> nat \<Rightarrow> exn + jsval" where
  "loadedResetTimes parse stringify fs i =
     thenE (fst (loadAccounts parse stringify fs)) (\<lambda>storage.
     thenE (getProp storage ''accounts'') (\<lambda>accs.
       getProp (elementAt accs i) ''rateLimitResetTimes''))"

section \<open>Token refresher (token)\<close>

text \<open>
  \<open>OAuthAuthDetails\<close> without its constant \<open>type: "oauth"\<close>. The host's credential
  store is written through \<open>client.auth.set\<close>, which may throw; \<open>authSetCalls\<close>
  records every invocation with the provider id and the body. The two project-context
  caches and the auth cache are the module-level maps of the source; a pending entry is
  a promise, of which the model keeps only the key.
\<close>

record OAuthAuthDetails =
  authRefresh :: string
  authAccess :: string
  authExpires :: number

record ProjectContextResult =
  contextAuth :: OAuthAuthDetails
  effectiveProjectId :: string

record world =
  hostAuth :: "string \<Rightarrow> OAuthAuthDetails option"
  authSetCalls :: "(string \<times> OAuthAuthDetails) list"
  authSetThrows :: bool
  projectContextResultCache :: "string \<Rightarrow> ProjectContextResult option"
  projectContextPendingCache :: "string set"
  authCache :: "string \<Rightarrow> OAuthAuthDetails option"

definition ANTIGRAVITY_PROVIDER_ID :: string where
  "ANTIGRAVITY_PROVIDER_ID = ''google''"

definition invalidateProjectContextCache :: "string option \<Rightarrow> world \<Rightarrow> world" where
  "invalidateProjectContextCache refresh w =
     (case refresh of
        None \<Rightarrow> w\<lparr>projectContextPendingCache := {}, projectContextResultCache := (\<lambda>k. None)\<rparr>
      | Some r \<Rightarrow>
          if r = [] then
            w\<lparr>projectContextPendingCache := {}, projectContextResultCache := (\<lambda>k. None)\<rparr>
          else
            w\<lparr>projectContextPendingCache := projectContextPendingCache w - {r},
              projectContextResultCache := (projectContextResultCache w)(r := None)\<rparr>)"

definition normalizeRefreshKey :: "string \<Rightarrow> string option" where
  "normalizeRefreshKey refresh = (let key = jsTrim refresh in if key \<noteq> [] then Some key else None)"

definition storeCachedAuth :: "OAuthAuthDetails \<Rightarrow> world \<Rightarrow> world" where
  "storeCachedAuth auth w =
     (case normalizeRefreshKey (authRefresh auth) of
        None \<Rightarrow> w
      | Some key \<Rightarrow> w\<lparr>authCache := (authCache w)(key \<mapsto> auth)\<rparr>)"

text \<open>\<open>client.auth.set({path: {id}, body})\<close>.\<close>

definition authSet :: "string \<Rightarrow> OAuthAuthDetails \<Rightarrow> world \<Rightarrow> (exn + unit) \<times> world" where
  "authSet providerId body w =
     (let w1 = w\<lparr>authSetCalls := authSetCalls w @ [(providerId, body)]\<rparr>
      in if authSetThrows w1 then (Inl IOError, w1)
         else (Inr (), w1\<lparr>hostAuth := (hostAuth w1)(providerId \<mapsto> body)\<rparr>))"

text \<open>
  \<open>parseOAuthErrorPayload(text)\<close>. \<open>typeof v === "object"\<close> holds of \<open>null\<close>,
  arrays and objects. Every property read below is on a truthy value, so none throws;
  the only exception the \<open>try\<close> can see is the SyntaxError of \<open>JSON.parse\<close>.
\<close>

record OAuthError =
  code :: jsval
  description :: jsval

fun typeofObject :: "jsval \<Rightarrow> bool" where
  "typeofObject JNull = True"
| "typeofObject (JArr xs) = True"
| "typeofObject (JObj kvs) = True"
| "typeofObject v = False"

fun typeofString :: "jsval \<Rightarrow> bool" where
  "typeofString (JStr s) = True"
| "typeofString v = False"

text \<open>\<open>a ?? b\<close>.\<close>

definition coalesce :: "jsval \<Rightarrow> jsval \<Rightarrow> jsval" where
  "coalesce a b = (if nullish a then b else a)"

definition parseOAuthErrorPayload :: "(string \<Rightarrow> jsval option) \<Rightarrow> string option \<Rightarrow> OAuthError" where
  "parseOAuthErrorPayload parse errorText =
     (case errorText of
        None \<Rightarrow> \<lparr>code = JUndefined, description = JUndefined\<rparr>
      | Some t \<Rightarrow>
          if t = [] then \<lparr>code = JUndefined, description = JUndefined\<rparr>
          else
            (case parse t of
               None \<Rightarrow> \<lparr>code = JUndefined, description = JStr t\<rparr>
             | Some payload \<Rightarrow>
                 if \<not> truthy payload \<or> \<not> typeofObject payload
                 then \<lparr>code = JUndefined, description = JStr t\<rparr>
                 else
                   let err = propOf payload ''error'';
                       errorDescription = propOf payload ''error_description'';
                       errIsObject = (truthy err \<and> typeofObject err);
                       c = (if typeofString err then err
                            else if errIsObject
                              then coalesce (propOf err ''status'') (propOf err ''code'')
                              else JUndefined)
                   in if \<not> typeofString err \<and> errIsObject \<and> \<not> truthy errorDescription
                           \<and> truthy (propOf err ''message'')
                      then \<lparr>code = c, description = propOf err ''message''\<rparr>
                      else if truthy errorDescription
                        then \<lparr>code = c, description = errorDescription\<rparr>
                      else if errIsObject \<and> truthy (propOf err ''message'')
                        then \<lparr>code = c, description = propOf err ''message''\<rparr>
                      else \<lparr>code = c, description = JUndefined\<rparr>))"

text \<open>
  What \<open>fetch\<close> does with the refresh request: it throws, or it answers with a failure
  status and a body (\<open>None\<close> when \<open>response.text()\<close> throws), or it answers \<open>ok\<close>
  with the token payload (\<open>None\<close> when \<open>response.json()\<close> throws).
\<close>

record TokenPayload =
  access_token :: string
  expires_in :: number
  refresh_token :: "string option"

datatype fetchOutcome =
    NetworkError
  | HttpFailure nat string "string option"
  | HttpSuccess "TokenPayload option"

text \<open>
  \<open>refreshAccessToken(auth, client)\<close>, with the client secret of the environment, the
  clock and the outcome of the request as arguments. Console output is left out.
\<close>

definition refreshAccessToken ::
  "string \<Rightarrow> (string \<Rightarrow> jsval option) \<Rightarrow> number \<Rightarrow> fetchOutcome \<Rightarrow> OAuthAuthDetails \<Rightarrow> world
   \<Rightarrow> OAuthAuthDetails option \<times> world" where
  "refreshAccessToken clientSecret parse now outcome auth w =
     (let ps = parseRefreshParts (authRefresh auth)
      in if refreshToken ps = [] then (None, w)
         else if clientSecret = [] then (None, w)
         else
           (case outcome of
              NetworkError \<Rightarrow> (None, w)
            | HttpFailure status statusText errorText \<Rightarrow>
                if code (parseOAuthErrorPayload parse errorText) = JStr ''invalid_grant'' then
                  let w1 = invalidateProjectContextCache (Some (authRefresh auth)) w;
                      clearedAuth =
                        \<lparr>authRefresh = formatRefreshParts
                             \<lparr>refreshToken = [], projectId = projectId ps,
                              managedProjectId = managedProjectId ps\<rparr>,
                         authAccess = [], authExpires = 0\<rparr>
                  in (None, snd (authSet ANTIGRAVITY_PROVIDER_ID clearedAuth w1))
                else (None, w)
            | HttpSuccess None \<Rightarrow> (None, w)
            | HttpSuccess (Some payload) \<Rightarrow>
                let refreshedParts =
                      \<lparr>refreshToken =
                         (case refresh_token payload of None \<Rightarrow> refreshToken ps | Some r \<Rightarrow> r),
                       projectId = projectId ps, managedProjectId = managedProjectId ps\<rparr>;
                    updatedAuth =
                      auth\<lparr>authAccess := access_token payload,
                           authExpires := now + expires_in payload * 1000,
                           authRefresh := formatRefreshParts refreshedParts\<rparr>
                in (Some updatedAuth,
                    invalidateProjectContextCache (Some (authRefresh auth))
                      (storeCachedAuth updatedAuth w))))"

text \<open>A parser for the error bodies of the token endpoint used below, and an empty world.\<close>

definition errorBodyParse :: "string \<Rightarrow> jsval option" where
  "errorBodyParse s =
     (if s = ''{error: invalid_grant}''
        then Some (JObj [(''error'', JStr ''invalid_grant''),
                         (''error_description'', JStr ''Token has been expired or revoked.'')])
      else if s = ''{error: {status: invalid_grant}}''
        then Some (JObj [(''error'', JObj [(''status'', JStr ''invalid_grant''),
                                           (''message'', JStr ''revoked'')])])
      else if s = ''{error: invalid_client}''
        then Some (JObj [(''error'', JStr ''invalid_client'')])
      else None)"

definition emptyWorld :: world where
  "emptyWorld = \<lparr>hostAuth = (\<lambda>k. None), authSetCalls = [], authSetThrows = False,
     projectContextResultCache = (\<lambda>k. None), projectContextPendingCache = {},
     authCache = (\<lambda>k. None)\<rparr>"

definition revokedAuth :: OAuthAuthDetails where
  "revokedAuth = \<lparr>authRefresh = ''tok|proj|managed'', authAccess = ''old-access'', authExpires = 0\<rparr>"

definition cachedWorld :: world where
  "cachedWorld = emptyWorld
     \<lparr>projectContextResultCache :=
        (\<lambda>k. if k = ''tok|proj|managed''
              then Some \<lparr>contextAuth = revokedAuth, effectiveProjectId = ''proj''\<rparr> else None),
      projectContextPendingCache := {''tok|proj|managed''}\<rparr>"

section \<open>Thinking-signature cache (cache)\<close>







section \<open>Claude request transform: contents and their parts\<close>

text \<open>
  A part is an object (\<open>Record<string, unknown>\<close>), given by its property list. Of the
  transform context the loop reads \<open>family\<close> and \<open>sessionId\<close>.
\<close>

type_synonym part = "(string \<times> jsval) list"

record TransformContext =
  family :: ModelFamily
  sessionId :: string



















text \<open>
  The loop over the contents: a content whose \<open>parts\<close> is not an array is skipped
  (\<open>None\<close>), the others get their filtered parts. The signature cache and the id queues
  live on from one content to the next.
\<close>

type_synonym content = "part list option"







section \<open>Tool names and the tool schema cache (Gemini transform)\<close>






















section \<open>Argument normalization (request helpers)\<close>














section \<open>Theorems\<close>

subsection \<open>Backoff\<close>

lemma backoffDefault_closed:
  "backoffDefault a = min 3600000 (1000 * 2 ^ nat (max 1 \<lfloor>a\<rfloor> - 1))"
proof -
  have "(1000::rat) * 2 ^ n = of_int (1000 * 2 ^ n)" for n :: nat
    by simp
  then have "of_int \<lfloor>(1000::rat) * 2 ^ n\<rfloor> = (1000::rat) * 2 ^ n" for n :: nat
    by (metis floor_of_int)
  moreover have "(0::rat) \<le> 1000 * 2 ^ n" for n :: nat
    by simp
  ultimately show ?thesis
    by (simp add: backoffDefault_def computeExponentialBackoffMs_def Let_def
        RATE_LIMIT_BACKOFF_BASE_MS_def RATE_LIMIT_BACKOFF_MAX_MS_def max_def)
qed

lemma backoffDefault_mono_aux:
  assumes "a \<le> b"
  shows "backoffDefault a \<le> backoffDefault b"
proof -
  have "\<lfloor>a\<rfloor> \<le> \<lfloor>b\<rfloor>"
    using assms by (rule floor_mono)
  then have "nat (max 1 \<lfloor>a\<rfloor> - 1) \<le> nat (max 1 \<lfloor>b\<rfloor> - 1)"
    by simp
  then have "(2::rat) ^ nat (max 1 \<lfloor>a\<rfloor> - 1) \<le> 2 ^ nat (max 1 \<lfloor>b\<rfloor> - 1)"
    by (rule power_increasing) simp
  then show ?thesis
    unfolding backoffDefault_closed by (simp add: min_le_iff_disj)
qed

text \<open>
  C10. With the default base (1000 ms) and cap (3600000 ms) the backoff for attempt
  \<open>a\<close> is \<open>min(3600000, 1000 * 2^(max(1, floor a) - 1))\<close>; it is non-negative, at most
  one hour, and nondecreasing in the attempt number.
\<close>

theorem C10_backoff_formula_bounds_monotone:
  "backoffDefault a = min 3600000 (1000 * 2 ^ nat (max 1 \<lfloor>a\<rfloor> - 1))
   \<and> 0 \<le> backoffDefault a
   \<and> backoffDefault a \<le> 3600000
   \<and> (a \<le> b \<longrightarrow> backoffDefault a \<le> backoffDefault b)"
proof -
  have "(0::rat) \<le> 1000 * 2 ^ nat (max 1 \<lfloor>a\<rfloor> - 1)"
    by simp
  then have "0 \<le> backoffDefault a"
    unfolding backoffDefault_closed by simp
  moreover have "backoffDefault a \<le> 3600000"
    unfolding backoffDefault_closed by simp
  ultimately show ?thesis
    using backoffDefault_closed [of a] backoffDefault_mono_aux [of a b] by blast
qed

theorem C10_backoff_witness:
  "backoffDefault 3 = 4000 \<and> backoffDefault 3 \<le> backoffDefault (7 / 2)
   \<and> backoffDefault 13 = 3600000 \<and> backoffDefault (-2) = 1000"
proof -
  have e: "nat (max 1 \<lfloor>3::rat\<rfloor> - 1) = 2" "nat (max 1 \<lfloor>13::rat\<rfloor> - 1) = 12"
    "nat (max 1 \<lfloor>-2::rat\<rfloor> - 1) = 0"
    by simp_all
  have le: "(3::rat) \<le> 7 / 2" by simp
  show ?thesis
    using C10_backoff_formula_bounds_monotone [of 3 "7 / 2"]
      C10_backoff_formula_bounds_monotone [of 13 13]
      C10_backoff_formula_bounds_monotone [of "-2" "-2"] le
    by (simp add: e)
qed

subsection \<open>Account selection\<close>

lemma resetTimeOf_clear:
  "resetTimeOf (rateLimitResetTimes (clearExpiredRateLimits now a)) fam =
     (if expired now (resetTimeOf (rateLimitResetTimes a) fam) then None
      else resetTimeOf (rateLimitResetTimes a) fam)"
  by (cases fam) (simp_all add: clearExpiredRateLimits_def Let_def)

lemma clear_fields [simp]:
  "index (clearExpiredRateLimits now a) = index a"
  "tier (clearExpiredRateLimits now a) = tier a"
  by (simp_all add: clearExpiredRateLimits_def Let_def)

lemma limited_clear_same:
  "isRateLimitedForFamily now (clearExpiredRateLimits now a) fam = isRateLimitedForFamily now a fam"
  by (auto simp: isRateLimitedForFamily_def resetTimeOf_clear expired_def split: option.splits)

lemma limited_clear_other:
  "isRateLimitedForFamily t (clearExpiredRateLimits now a) fam \<Longrightarrow> isRateLimitedForFamily t a fam"
  by (auto simp: isRateLimitedForFamily_def resetTimeOf_clear expired_def split: option.splits if_splits)

lemma upt2: "[0..<Suc (Suc 0)] = [0, Suc 0]"
  by (simp add: upt_conv_Cons)

lemma tier_override_step:
  assumes "accounts m = [A, B]" "currentAccountIndex m = 0"
    "tier A = Some Free" "tier B = Some Paid" "index B = 1"
    "\<not> isRateLimitedForFamily now A fam" "\<not> isRateLimitedForFamily now B fam"
  shows "getCurrentOrNextForFamily now fam m =
     (Some ((clearExpiredRateLimits now B)\<lparr>lastUsed := now\<rparr>),
      m\<lparr>accounts := [clearExpiredRateLimits now A, (clearExpiredRateLimits now B)\<lparr>lastUsed := now\<rparr>],
        currentIndex := currentIndex m + 1, currentAccountIndex := 1\<rparr>)"
  using assms
  by (simp add: getCurrentOrNextForFamily_def getNextForFamily_def getCurrentAccount_def Let_def
      limited_clear_same upt2)

lemma evolvedFrom_refl: "evolvedFrom a a"
  by (simp add: evolvedFrom_def)

lemma evolvedFrom_trans: "evolvedFrom a b \<Longrightarrow> evolvedFrom b c \<Longrightarrow> evolvedFrom a c"
  by (simp add: evolvedFrom_def)

lemma limited_lastUsed [simp]:
  "isRateLimitedForFamily t (a\<lparr>lastUsed := u\<rparr>) f = isRateLimitedForFamily t a f"
  by (simp add: isRateLimitedForFamily_def)

lemma evolvedFrom_clear: "evolvedFrom a (clearExpiredRateLimits now a)"
  by (auto simp: evolvedFrom_def dest: limited_clear_other)

lemma evolvedFrom_clear_used: "evolvedFrom a ((clearExpiredRateLimits now a)\<lparr>lastUsed := u\<rparr>)"
  by (auto simp: evolvedFrom_def dest: limited_clear_other)

lemma sticky_step:
  assumes "currentAccountIndex m = int c" "c < length (accounts m)"
    "tier (accounts m ! c) = Some Paid"
    "\<not> isRateLimitedForFamily now (accounts m ! c) fam"
  shows "getCurrentOrNextForFamily now fam m =
     (Some ((clearExpiredRateLimits now (accounts m ! c))\<lparr>lastUsed := now\<rparr>),
      m\<lparr>accounts := (map (clearExpiredRateLimits now) (accounts m))
            [c := (clearExpiredRateLimits now (accounts m ! c))\<lparr>lastUsed := now\<rparr>]\<rparr>)"
  using assms
  by (simp add: getCurrentOrNextForFamily_def getCurrentAccount_def Let_def limited_clear_same)

lemma sticky_run:
  assumes "currentAccountIndex m = int c" "c < length (accounts m)"
    "tier (accounts m ! c) = Some Paid"
    "\<forall>t \<in> set ts. \<not> isRateLimitedForFamily t (accounts m ! c) fam"
  shows "map (map_option index) (fst (selectRepeatedly fam ts m))
           = replicate (length ts) (Some (index (accounts m ! c)))
       \<and> currentAccountIndex (snd (selectRepeatedly fam ts m)) = int c
       \<and> list_all2 evolvedFrom (accounts m) (accounts (snd (selectRepeatedly fam ts m)))"
  using assms
proof (induction ts arbitrary: m)
  case Nil
  then show ?case by (simp add: list_all2_refl evolvedFrom_refl)
next
  case (Cons t ts)
  let ?a = "(clearExpiredRateLimits t (accounts m ! c))\<lparr>lastUsed := t\<rparr>"
  let ?m = "m\<lparr>accounts := (map (clearExpiredRateLimits t) (accounts m))[c := ?a]\<rparr>"
  have step: "getCurrentOrNextForFamily t fam m = (Some ?a, ?m)"
    using Cons.prems sticky_step [of m c t fam] by simp
  have ev: "list_all2 evolvedFrom (accounts m) (accounts ?m)"
    using Cons.prems(2)
    by (auto simp: list_all2_conv_all_nth nth_list_update evolvedFrom_clear evolvedFrom_clear_used)
  have evc: "evolvedFrom (accounts m ! c) (accounts ?m ! c)"
    using Cons.prems(2) by (simp add: evolvedFrom_clear_used)
  have pre: "currentAccountIndex ?m = int c" "c < length (accounts ?m)"
    "tier (accounts ?m ! c) = Some Paid"
    "\<forall>t \<in> set ts. \<not> isRateLimitedForFamily t (accounts ?m ! c) fam"
    using Cons.prems evc by (auto simp: evolvedFrom_def)
  have ih: "map (map_option index) (fst (selectRepeatedly fam ts ?m))
           = replicate (length ts) (Some (index (accounts ?m ! c)))
       \<and> currentAccountIndex (snd (selectRepeatedly fam ts ?m)) = int c
       \<and> list_all2 evolvedFrom (accounts ?m) (accounts (snd (selectRepeatedly fam ts ?m)))"
    using Cons.IH [of ?m] pre by blast
  have idx: "index (accounts ?m ! c) = index (accounts m ! c)"
    using evc by (simp add: evolvedFrom_def)
  have tr: "list_all2 evolvedFrom (accounts m) (accounts (snd (selectRepeatedly fam ts ?m)))"
  proof (rule list_all2_trans)
    show "evolvedFrom a b \<Longrightarrow> evolvedFrom b d \<Longrightarrow> evolvedFrom a d" for a b d
      by (rule evolvedFrom_trans)
    show "list_all2 evolvedFrom (accounts m) (accounts ?m)" by (rule ev)
    show "list_all2 evolvedFrom (accounts ?m) (accounts (snd (selectRepeatedly fam ts ?m)))"
      using ih by simp
  qed
  show ?case
  proof (cases "selectRepeatedly fam ts ?m")
    case (Pair rs m'')
    then show ?thesis
      using ih idx tr by (simp add: step)
  qed
qed

lemma switch_step:
  assumes "accounts m = [A, B]" "currentAccountIndex m = 0"
    "isRateLimitedForFamily now A fam" "\<not> isRateLimitedForFamily now B fam"
    "tier B = Some Paid"
  shows "getCurrentOrNextForFamily now fam m =
     (Some ((clearExpiredRateLimits now B)\<lparr>lastUsed := now\<rparr>),
      m\<lparr>accounts := [clearExpiredRateLimits now A, (clearExpiredRateLimits now B)\<lparr>lastUsed := now\<rparr>],
        currentIndex := currentIndex m + 1, currentAccountIndex := index B\<rparr>)"
  using assms
  by (simp add: getCurrentOrNextForFamily_def getNextForFamily_def getCurrentAccount_def Let_def
      limited_clear_same upt2)

lemma limited_mark_same:
  "isRateLimitedForFamily t (markRateLimited now a retry fam) fam \<longleftrightarrow> t < now + retry"
  by (cases fam) (simp_all add: isRateLimitedForFamily_def markRateLimited_def)

lemma sticky_then_switch:
  assumes shape: "accounts m = [P0, P1]" "currentAccountIndex m = 0"
    and tiers: "tier P0 = Some Paid" "tier P1 = Some Paid"
    and idx: "index P0 = 0" "index P1 = 1"
    and free0: "\<forall>t \<in> set before. \<not> isRateLimitedForFamily t P0 fam"
    and free1: "\<forall>t \<in> set (t1 # after). \<not> isRateLimitedForFamily t P1 fam"
    and lim: "t1 < tm + retryAfterMs"
  shows "map (map_option index) (fst (selectRepeatedly fam before m))
           = replicate (length before) (Some 0)
       \<and> map (map_option index)
            (fst (selectRepeatedly fam (t1 # after)
               (markRateLimitedAt tm 0 retryAfterMs fam (snd (selectRepeatedly fam before m)))))
           = replicate (Suc (length after)) (Some 1)"
proof -
  let ?m1 = "snd (selectRepeatedly fam before m)"
  have run1: "map (map_option index) (fst (selectRepeatedly fam before m))
           = replicate (length before) (Some (index (accounts m ! 0)))
       \<and> currentAccountIndex ?m1 = int 0
       \<and> list_all2 evolvedFrom (accounts m) (accounts ?m1)"
    using shape tiers free0 by (intro sticky_run) simp_all
  then obtain Q0 Q1 where q: "accounts ?m1 = [Q0, Q1]" "evolvedFrom P0 Q0" "evolvedFrom P1 Q1"
    by (auto simp: shape list_all2_Cons1)
  let ?m2 = "markRateLimitedAt tm 0 retryAfterMs fam ?m1"
  let ?M0 = "markRateLimited tm Q0 retryAfterMs fam"
  have m2: "accounts ?m2 = [?M0, Q1]" "currentAccountIndex ?m2 = 0"
    using run1 q by (simp_all add: markRateLimitedAt_def)
  let ?Q1' = "(clearExpiredRateLimits t1 Q1)\<lparr>lastUsed := t1\<rparr>"
  let ?m3 = "?m2\<lparr>accounts := [clearExpiredRateLimits t1 ?M0, ?Q1'],
        currentIndex := currentIndex ?m2 + 1, currentAccountIndex := index Q1\<rparr>"
  have sw: "getCurrentOrNextForFamily t1 fam ?m2 = (Some ?Q1', ?m3)"
  proof (rule switch_step [OF m2])
    show "isRateLimitedForFamily t1 ?M0 fam"
      using lim by (simp add: limited_mark_same)
    show "\<not> isRateLimitedForFamily t1 Q1 fam"
      using free1 q(3) by (auto simp: evolvedFrom_def)
    show "tier Q1 = Some Paid"
      using tiers q(3) by (simp add: evolvedFrom_def)
  qed
  have ev1: "evolvedFrom P1 ?Q1'"
    using q(3) evolvedFrom_clear_used [of Q1 t1 t1] by (rule evolvedFrom_trans)
  have run2: "map (map_option index) (fst (selectRepeatedly fam after ?m3))
           = replicate (length after) (Some (index (accounts ?m3 ! 1)))
       \<and> currentAccountIndex (snd (selectRepeatedly fam after ?m3)) = int 1
       \<and> list_all2 evolvedFrom (accounts ?m3) (accounts (snd (selectRepeatedly fam after ?m3)))"
  proof (rule sticky_run)
    show "currentAccountIndex ?m3 = int 1"
      using idx q(3) by (simp add: evolvedFrom_def)
    show "1 < length (accounts ?m3)" by simp
    show "tier (accounts ?m3 ! 1) = Some Paid"
      using tiers q(3) by (simp add: evolvedFrom_def)
    show "\<forall>t \<in> set after. \<not> isRateLimitedForFamily t (accounts ?m3 ! 1) fam"
      using free1 ev1 by (auto simp: evolvedFrom_def)
  qed
  have i1: "index ?Q1' = 1"
    using idx q(3) by (simp add: evolvedFrom_def)
  have second: "map (map_option index) (fst (selectRepeatedly fam (t1 # after) ?m2))
           = replicate (Suc (length after)) (Some 1)"
  proof (cases "selectRepeatedly fam after ?m3")
    case (Pair rs m')
    then show ?thesis
      using run2 i1 by (simp add: sw)
  qed
  show ?thesis
    using run1 second idx by (simp add: shape)
qed

text \<open>
  C1. Selection is sticky but tier-aware. With accounts [free A (current), paid B],
  neither rate-limited for the family, the selection call returns B (the object at
  position 1) and makes it current. With two paid accounts, account 0 current, every
  call returns account 0 as long as it is not rate-limited; once it is marked
  rate-limited for the family and the mark is still in force at the next call, that
  call returns account 1, and so does every later call.
\<close>

theorem C1_sticky_tier_aware_selection:
  "(accounts m = [A, B] \<and> currentAccountIndex m = 0
      \<and> tier A = Some Free \<and> tier B = Some Paid \<and> index A = 0 \<and> index B = 1
      \<and> \<not> isRateLimitedForFamily now A fam \<and> \<not> isRateLimitedForFamily now B fam
    \<longrightarrow> map_option index (fst (getCurrentOrNextForFamily now fam m)) = Some 1
      \<and> map_option tier (fst (getCurrentOrNextForFamily now fam m)) = Some (Some Paid)
      \<and> map_option parts (fst (getCurrentOrNextForFamily now fam m)) = Some (parts B)
      \<and> fst (getCurrentOrNextForFamily now fam m)
          = Some (accounts (snd (getCurrentOrNextForFamily now fam m)) ! 1)
      \<and> currentAccountIndex (snd (getCurrentOrNextForFamily now fam m)) = 1)
   \<and>
   (accounts m' = [P0, P1] \<and> currentAccountIndex m' = 0
      \<and> tier P0 = Some Paid \<and> tier P1 = Some Paid \<and> index P0 = 0 \<and> index P1 = 1
      \<and> (\<forall>t \<in> set before. \<not> isRateLimitedForFamily t P0 fam')
      \<and> (\<forall>t \<in> set (t1 # after). \<not> isRateLimitedForFamily t P1 fam')
      \<and> t1 < tm + retryAfterMs
    \<longrightarrow> map (map_option index) (fst (selectRepeatedly fam' before m'))
          = replicate (length before) (Some 0)
      \<and> map (map_option index)
            (fst (selectRepeatedly fam' (t1 # after)
               (markRateLimitedAt tm 0 retryAfterMs fam' (snd (selectRepeatedly fam' before m')))))
          = replicate (Suc (length after)) (Some 1))"
proof (intro conjI impI)
  assume h: "accounts m = [A, B] \<and> currentAccountIndex m = 0
      \<and> tier A = Some Free \<and> tier B = Some Paid \<and> index A = 0 \<and> index B = 1
      \<and> \<not> isRateLimitedForFamily now A fam \<and> \<not> isRateLimitedForFamily now B fam"
  then have step: "getCurrentOrNextForFamily now fam m =
     (Some ((clearExpiredRateLimits now B)\<lparr>lastUsed := now\<rparr>),
      m\<lparr>accounts := [clearExpiredRateLimits now A, (clearExpiredRateLimits now B)\<lparr>lastUsed := now\<rparr>],
        currentIndex := currentIndex m + 1, currentAccountIndex := 1\<rparr>)"
    by (intro tier_override_step) simp_all
  show "map_option index (fst (getCurrentOrNextForFamily now fam m)) = Some 1"
    using h by (simp add: step)
  show "map_option tier (fst (getCurrentOrNextForFamily now fam m)) = Some (Some Paid)"
    using h by (simp add: step)
  show "map_option parts (fst (getCurrentOrNextForFamily now fam m)) = Some (parts B)"
    by (simp add: step clearExpiredRateLimits_def Let_def)
  show "fst (getCurrentOrNextForFamily now fam m)
          = Some (accounts (snd (getCurrentOrNextForFamily now fam m)) ! 1)"
    by (simp add: step)
  show "currentAccountIndex (snd (getCurrentOrNextForFamily now fam m)) = 1"
    by (simp add: step)
next
  assume h: "accounts m' = [P0, P1] \<and> currentAccountIndex m' = 0
      \<and> tier P0 = Some Paid \<and> tier P1 = Some Paid \<and> index P0 = 0 \<and> index P1 = 1
      \<and> (\<forall>t \<in> set before. \<not> isRateLimitedForFamily t P0 fam')
      \<and> (\<forall>t \<in> set (t1 # after). \<not> isRateLimitedForFamily t P1 fam')
      \<and> t1 < tm + retryAfterMs"
  then have both: "map (map_option index) (fst (selectRepeatedly fam' before m'))
           = replicate (length before) (Some 0)
       \<and> map (map_option index)
            (fst (selectRepeatedly fam' (t1 # after)
               (markRateLimitedAt tm 0 retryAfterMs fam' (snd (selectRepeatedly fam' before m')))))
           = replicate (Suc (length after)) (Some 1)"
    by (intro sticky_then_switch [of m' P0 P1]) simp_all
  show "map (map_option index) (fst (selectRepeatedly fam' before m'))
          = replicate (length before) (Some 0)"
    using both by (rule conjunct1)
  show "map (map_option index)
            (fst (selectRepeatedly fam' (t1 # after)
               (markRateLimitedAt tm 0 retryAfterMs fam' (snd (selectRepeatedly fam' before m')))))
          = replicate (Suc (length after)) (Some 1)"
    using both by (rule conjunct2)
qed

theorem C1_selection_witness:
  "map_option index (fst (getCurrentOrNextForFamily 1000 GeminiPro (twoAccounts Free Paid))) = Some 1
   \<and> currentAccountIndex (snd (getCurrentOrNextForFamily 1000 GeminiPro (twoAccounts Free Paid))) = 1
   \<and> map (map_option index) (fst (selectRepeatedly GeminiPro [10, 20, 30] (twoAccounts Paid Paid)))
       = [Some 0, Some 0, Some 0]
   \<and> map (map_option index)
        (fst (selectRepeatedly GeminiPro [50, 60]
           (markRateLimitedAt 40 0 5000 GeminiPro
              (snd (selectRepeatedly GeminiPro [10, 20, 30] (twoAccounts Paid Paid))))))
       = [Some 1, Some 1]"
proof -
  let ?m = "twoAccounts Free Paid" and ?n = "twoAccounts Paid Paid"
  note defs = twoAccounts_def addAccount_def emptyRateLimitState_def isRateLimitedForFamily_def
  note inst = C1_sticky_tier_aware_selection
    [where m = "?m" and A = "accounts ?m ! 0" and B = "accounts ?m ! 1" and now = 1000
       and fam = GeminiPro and m' = "?n" and ?P0.0 = "accounts ?n ! 0"
       and ?P1.0 = "accounts ?n ! 1" and before = "[10, 20, 30]"
       and fam' = GeminiPro and ?t1.0 = 50 and after = "[60]" and tm = 40
       and retryAfterMs = 5000]
  have h1: "accounts ?m = [accounts ?m ! 0, accounts ?m ! 1] \<and> currentAccountIndex ?m = 0
      \<and> tier (accounts ?m ! 0) = Some Free \<and> tier (accounts ?m ! 1) = Some Paid
      \<and> index (accounts ?m ! 0) = 0 \<and> index (accounts ?m ! 1) = 1
      \<and> \<not> isRateLimitedForFamily 1000 (accounts ?m ! 0) GeminiPro
      \<and> \<not> isRateLimitedForFamily 1000 (accounts ?m ! 1) GeminiPro"
    by (simp add: defs)
  have h2: "accounts ?n = [accounts ?n ! 0, accounts ?n ! 1] \<and> currentAccountIndex ?n = 0
      \<and> tier (accounts ?n ! 0) = Some Paid \<and> tier (accounts ?n ! 1) = Some Paid
      \<and> index (accounts ?n ! 0) = 0 \<and> index (accounts ?n ! 1) = 1
      \<and> (\<forall>t \<in> set [10, 20, 30]. \<not> isRateLimitedForFamily t (accounts ?n ! 0) GeminiPro)
      \<and> (\<forall>t \<in> set (50 # [60]). \<not> isRateLimitedForFamily t (accounts ?n ! 1) GeminiPro)
      \<and> (50::rat) < 40 + 5000"
    by (simp add: defs)
  have c1: "map_option index (fst (getCurrentOrNextForFamily 1000 GeminiPro ?m)) = Some 1"
    and c2: "currentAccountIndex (snd (getCurrentOrNextForFamily 1000 GeminiPro ?m)) = 1"
    using mp [OF conjunct1 [OF inst] h1] by blast+
  have c3: "map (map_option index) (fst (selectRepeatedly GeminiPro [10, 20, 30] ?n))
          = replicate (length [10, 20, 30 :: rat]) (Some 0)"
    and c4: "map (map_option index)
        (fst (selectRepeatedly GeminiPro (50 # [60])
           (markRateLimitedAt 40 0 5000 GeminiPro (snd (selectRepeatedly GeminiPro [10, 20, 30] ?n)))))
          = replicate (Suc (length [60 :: rat])) (Some 1)"
    using mp [OF conjunct2 [OF inst] h2] by blast+
  have r3: "replicate (length [10, 20, 30 :: rat]) (Some (0::int)) = [Some 0, Some 0, Some 0]"
    and r4: "replicate (Suc (length [60 :: rat])) (Some (1::int)) = [Some 1, Some 1]"
    by (simp_all add: numeral_3_eq_3)
  show ?thesis
    using c1 c2 c3 c4 unfolding r3 r4 by blast
qed

subsection \<open>Rate-limit marks\<close>

lemma resetTimeOf_set:
  "resetTimeOf (setResetTime s fam t) fam' = (if fam' = fam then Some t else resetTimeOf s fam')"
  by (cases fam; cases fam') simp_all

text \<open>
  C6. \<open>markRateLimited(account, retryAfterMs, family)\<close> sets the reset time of
  that family to \<open>now + retryAfterMs\<close> and leaves the entries of the other families
  as they were, so whether the account is rate-limited for another family does not
  change: an account marked for \<open>claude\<close> that was eligible for \<open>gemini-flash\<close> or
  \<open>gemini-pro\<close> still is. Only the marked object changes in the manager's array.
\<close>

theorem C6_mark_rate_limited_is_per_family:
  "resetTimeOf (rateLimitResetTimes (markRateLimited now a retryAfterMs fam)) fam
      = Some (now + retryAfterMs)
   \<and> (\<forall>fam'. fam' \<noteq> fam \<longrightarrow>
         resetTimeOf (rateLimitResetTimes (markRateLimited now a retryAfterMs fam)) fam'
           = resetTimeOf (rateLimitResetTimes a) fam'
         \<and> (\<forall>t. isRateLimitedForFamily t (markRateLimited now a retryAfterMs fam) fam'
                = isRateLimitedForFamily t a fam'))
   \<and> (\<not> isRateLimitedForFamily t a GeminiFlash
        \<longrightarrow> \<not> isRateLimitedForFamily t (markRateLimited now a retryAfterMs Claude) GeminiFlash)
   \<and> (\<not> isRateLimitedForFamily t a GeminiPro
        \<longrightarrow> \<not> isRateLimitedForFamily t (markRateLimited now a retryAfterMs Claude) GeminiPro)
   \<and> (i < length (accounts m) \<longrightarrow>
        accounts (markRateLimitedAt now i retryAfterMs fam m) ! i
          = markRateLimited now (accounts m ! i) retryAfterMs fam)
   \<and> (\<forall>j. j \<noteq> i \<longrightarrow>
        accounts (markRateLimitedAt now i retryAfterMs fam m) ! j = accounts m ! j)"
  by (simp add: markRateLimited_def markRateLimitedAt_def isRateLimitedForFamily_def
      resetTimeOf_set)

theorem C6_mark_rate_limited_witness:
  "resetTimeOf (rateLimitResetTimes
      (markRateLimited 1000 (accounts (twoAccounts Free Paid) ! 0) 5000 Claude)) Claude = Some 6000
   \<and> isRateLimitedForFamily 2000
        (markRateLimited 1000 (accounts (twoAccounts Free Paid) ! 0) 5000 Claude) Claude
   \<and> \<not> isRateLimitedForFamily 2000
        (markRateLimited 1000 (accounts (twoAccounts Free Paid) ! 0) 5000 Claude) GeminiFlash
   \<and> \<not> isRateLimitedForFamily 2000
        (markRateLimited 1000 (accounts (twoAccounts Free Paid) ! 0) 5000 Claude) GeminiPro
   \<and> accounts (markRateLimitedAt 1000 0 5000 Claude (twoAccounts Free Paid)) ! 1
        = accounts (twoAccounts Free Paid) ! 1"
  using C6_mark_rate_limited_is_per_family
    [where now = 1000 and a = "accounts (twoAccounts Free Paid) ! 0" and retryAfterMs = 5000
       and fam = Claude and t = 2000 and i = 0 and m = "twoAccounts Free Paid"]
  by (simp add: twoAccounts_def addAccount_def emptyRateLimitState_def isRateLimitedForFamily_def
      markRateLimited_def)

subsection \<open>Credential codec\<close>

lemma jsSplitFrom_Nil: "jsSplitFrom sep cur [] = [cur]"
  by (subst jsSplitFrom.simps) simp

lemma jsSplitFrom_match:
  "sep \<noteq> [] \<Longrightarrow> jsSplitFrom sep cur (sep @ rest) = cur # jsSplitFrom sep [] rest"
  by (subst jsSplitFrom.simps) simp

lemma jsSplitFrom_bar_skip:
  "CHR ''|'' \<notin> set x \<Longrightarrow> jsSplitFrom ''|'' cur (x @ s) = jsSplitFrom ''|'' (cur @ x) s"
proof (induction x arbitrary: cur)
  case Nil
  then show ?case by simp
next
  case (Cons c x)
  have "jsSplitFrom ''|'' cur ((c # x) @ s) = jsSplitFrom ''|'' (cur @ [c]) (x @ s)"
    using Cons.prems by (subst jsSplitFrom.simps) auto
  also have "\<dots> = jsSplitFrom ''|'' ((cur @ [c]) @ x) s"
    using Cons.prems by (intro Cons.IH) simp
  finally show ?case by simp
qed

lemma jsSplitFrom_sep_skip:
  "\<not> containsSeparator x \<Longrightarrow> (s \<noteq> [] \<Longrightarrow> x \<noteq> [] \<Longrightarrow> last x \<noteq> CHR ''|'') \<Longrightarrow>
   jsSplitFrom ''||'' cur (x @ s) = jsSplitFrom ''||'' (cur @ x) s"
proof (induction x arbitrary: cur)
  case Nil
  then show ?case by simp
next
  case (Cons c x)
  have nomatch: "take 2 ((c # x) @ s) \<noteq> ''||''"
  proof (cases x)
    case Nil
    then show ?thesis using Cons.prems by (cases s) auto
  next
    case (Cons d x')
    then show ?thesis using Cons.prems(1) by auto
  qed
  have rest: "\<not> containsSeparator x"
    using Cons.prems(1) by (cases x) auto
  have "jsSplitFrom ''||'' cur ((c # x) @ s) = jsSplitFrom ''||'' (cur @ [c]) (x @ s)"
    using nomatch by (subst jsSplitFrom.simps) auto
  also have "\<dots> = jsSplitFrom ''||'' ((cur @ [c]) @ x) s"
    using rest Cons.prems(2) by (intro Cons.IH) auto
  finally show ?case by simp
qed

lemma count_list_Suc_split:
  "count_list x c = Suc n \<Longrightarrow> \<exists>a b. x = a @ c # b \<and> c \<notin> set a \<and> count_list b c = n"
proof (induction x)
  case Nil
  then show ?case by simp
next
  case (Cons d x)
  show ?case
  proof (cases "d = c")
    case True
    then have "d # x = [] @ c # x \<and> c \<notin> set [] \<and> count_list x c = n"
      using Cons.prems by simp
    then show ?thesis by blast
  next
    case False
    then have "count_list x c = Suc n" using Cons.prems by simp
    then obtain a b where "x = a @ c # b" "c \<notin> set a" "count_list b c = n"
      using Cons.IH by blast
    then have "d # x = (d # a) @ c # b \<and> c \<notin> set (d # a) \<and> count_list b c = n"
      using False by simp
    then show ?thesis by blast
  qed
qed

lemma jsSplit_two:
  assumes "CHR ''|'' \<notin> set a" "CHR ''|'' \<notin> set b"
  shows "jsSplit ''|'' (a @ CHR ''|'' # b) = [a, b]"
proof -
  have "jsSplit ''|'' (a @ CHR ''|'' # b) = jsSplitFrom ''|'' a (''|'' @ b)"
    using jsSplitFrom_bar_skip [OF assms(1), of "[]" "CHR ''|'' # b"] by (simp add: jsSplit_def)
  also have "\<dots> = a # jsSplitFrom ''|'' [] (b @ [])"
    by (subst jsSplitFrom_match) simp_all
  also have "\<dots> = [a, b]"
    by (simp only: jsSplitFrom_bar_skip [OF assms(2)]) (simp add: jsSplitFrom_Nil)
  finally show ?thesis .
qed

lemma jsSplit_three:
  assumes "CHR ''|'' \<notin> set a" "CHR ''|'' \<notin> set b" "CHR ''|'' \<notin> set c"
  shows "jsSplit ''|'' (a @ CHR ''|'' # b @ CHR ''|'' # c) = [a, b, c]"
proof -
  have "jsSplit ''|'' (a @ CHR ''|'' # b @ CHR ''|'' # c)
          = jsSplitFrom ''|'' a (''|'' @ b @ CHR ''|'' # c)"
    using jsSplitFrom_bar_skip [OF assms(1), of "[]" "CHR ''|'' # b @ CHR ''|'' # c"]
    by (simp add: jsSplit_def)
  also have "\<dots> = a # jsSplitFrom ''|'' [] (b @ CHR ''|'' # c)"
    by (subst jsSplitFrom_match) simp_all
  also have "jsSplitFrom ''|'' [] (b @ CHR ''|'' # c) = jsSplit ''|'' (b @ CHR ''|'' # c)"
    by (simp add: jsSplit_def)
  finally show ?thesis
    by (simp add: jsSplit_two [OF assms(2,3)])
qed

lemma parse_two:
  assumes "CHR ''|'' \<notin> set a" "CHR ''|'' \<notin> set b"
  shows "parseRefreshParts (a @ CHR ''|'' # b)
           = \<lparr>refreshToken = a, projectId = orUndefined b, managedProjectId = None\<rparr>"
  by (simp add: parseRefreshParts_def jsSplit_two [OF assms] segmentOr_def orUndefined_def)

lemma parse_three:
  assumes "CHR ''|'' \<notin> set a" "CHR ''|'' \<notin> set b" "CHR ''|'' \<notin> set c"
  shows "parseRefreshParts (a @ CHR ''|'' # b @ CHR ''|'' # c)
           = \<lparr>refreshToken = a, projectId = orUndefined b, managedProjectId = orUndefined c\<rparr>"
  by (simp add: parseRefreshParts_def jsSplit_three [OF assms] segmentOr_def)

lemma format_two:
  "formatRefreshParts \<lparr>refreshToken = a, projectId = orUndefined b, managedProjectId = None\<rparr>
     = a @ CHR ''|'' # b"
  by (simp add: formatRefreshParts_def orUndefined_def)

lemma format_three:
  "c \<noteq> [] \<Longrightarrow>
   formatRefreshParts \<lparr>refreshToken = a, projectId = orUndefined b, managedProjectId = orUndefined c\<rparr>
     = a @ CHR ''|'' # b @ CHR ''|'' # c"
  by (simp add: formatRefreshParts_def orUndefined_def)

lemma single_round_trip:
  assumes "wellFormedSingle x"
  shows "formatRefreshParts (parseRefreshParts x) = x"
proof -
  from assms consider (two) "count_list x (CHR ''|'') = Suc 0"
    | (three) "count_list x (CHR ''|'') = Suc (Suc 0)" "last x \<noteq> CHR ''|''"
    by (auto simp: wellFormedSingle_def numeral_2_eq_2)
  then show ?thesis
  proof cases
    case two
    from count_list_Suc_split [OF two]
    obtain a b where x: "x = a @ CHR ''|'' # b" and a: "CHR ''|'' \<notin> set a"
      and b0: "count_list b (CHR ''|'') = 0"
      by auto
    from b0 have b: "CHR ''|'' \<notin> set b" by (simp add: count_list_0_iff)
    show ?thesis
      by (simp only: x parse_two [OF a b] format_two)
  next
    case three
    from count_list_Suc_split [OF three(1)]
    obtain a r where x: "x = a @ CHR ''|'' # r" and a: "CHR ''|'' \<notin> set a"
      and r1: "count_list r (CHR ''|'') = Suc 0"
      by auto
    from count_list_Suc_split [OF r1]
    obtain b c where r: "r = b @ CHR ''|'' # c" and b: "CHR ''|'' \<notin> set b"
      and c0: "count_list c (CHR ''|'') = 0"
      by auto
    from c0 have c: "CHR ''|'' \<notin> set c" by (simp add: count_list_0_iff)
    have cne: "c \<noteq> []"
      using three(2) by (auto simp: x r)
    show ?thesis
      by (simp only: x r parse_three [OF a b c] format_three [OF cne])
  qed
qed

lemma jsTrim_nonempty:
  assumes "c \<in> set x" "\<not> isWhiteSpace c"
  shows "jsTrim x \<noteq> []"
proof -
  have "\<not> (\<forall>y \<in> set x. isWhiteSpace y)"
    using assms by blast
  then have "dropWhile isWhiteSpace x \<noteq> []"
    by (simp add: dropWhile_eq_Nil_conv)
  then have "\<not> isWhiteSpace (hd (dropWhile isWhiteSpace x))"
    by (rule hd_dropWhile)
  moreover have "hd (dropWhile isWhiteSpace x) \<in> set (rev (dropWhile isWhiteSpace x))"
    using \<open>dropWhile isWhiteSpace x \<noteq> []\<close> by simp
  ultimately have "\<not> (\<forall>y \<in> set (rev (dropWhile isWhiteSpace x)). isWhiteSpace y)"
    by blast
  then have "dropWhile isWhiteSpace (rev (dropWhile isWhiteSpace x)) \<noteq> []"
    by (simp add: dropWhile_eq_Nil_conv)
  then show ?thesis
    by (simp add: jsTrim_def)
qed

lemma wellFormedSingle_has_bar: "wellFormedSingle x \<Longrightarrow> CHR ''|'' \<in> set x"
  by (metis count_list_0_iff wellFormedSingle_def zero_neq_numeral zero_neq_one)

lemma wellFormedSingle_trim: "wellFormedSingle x \<Longrightarrow> jsTrim x \<noteq> []"
  by (rule jsTrim_nonempty [OF wellFormedSingle_has_bar]) (simp_all add: isWhiteSpace_def)

lemma jsSplit_jsJoin_gen:
  assumes "sep = ''||''" "xs \<noteq> []" "\<forall>a \<in> set xs. \<not> containsSeparator a"
    "\<forall>a \<in> set (butlast xs). a \<noteq> [] \<and> last a \<noteq> CHR ''|''"
  shows "jsSplit sep (jsJoin sep xs) = xs"
  using assms
proof (induction sep xs rule: jsJoin.induct)
  case (1 sep)
  then show ?case by simp
next
  case (2 sep x)
  then have "jsSplitFrom ''||'' [] (x @ []) = jsSplitFrom ''||'' ([] @ x) []"
    by (intro jsSplitFrom_sep_skip) simp_all
  then show ?case using "2.prems"(1) by (simp add: jsSplit_def jsSplitFrom_Nil)
next
  case (3 sep x y ys)
  have "jsSplitFrom ''||'' [] (x @ ''||'' @ jsJoin ''||'' (y # ys))
          = jsSplitFrom ''||'' ([] @ x) (''||'' @ jsJoin ''||'' (y # ys))"
    using "3.prems" by (intro jsSplitFrom_sep_skip) simp_all
  also have "\<dots> = x # jsSplitFrom ''||'' [] (jsJoin ''||'' (y # ys))"
    by (simp only: append_Nil) (rule jsSplitFrom_match, simp)
  also have "jsSplitFrom ''||'' [] (jsJoin ''||'' (y # ys)) = y # ys"
    using "3.IH" "3.prems" by (simp add: jsSplit_def)
  finally show ?case using "3.prems"(1) by (simp add: jsSplit_def)
qed

lemma jsSplit_jsJoin:
  assumes "xs \<noteq> []" "\<forall>a \<in> set xs. \<not> containsSeparator a"
    "\<forall>a \<in> set (butlast xs). a \<noteq> [] \<and> last a \<noteq> CHR ''|''"
  shows "jsSplit ''||'' (jsJoin ''||'' xs) = xs"
  using jsSplit_jsJoin_gen [OF refl assms] .

lemma jsJoin_nonempty: "xs \<noteq> [] \<Longrightarrow> \<forall>a \<in> set xs. a \<noteq> [] \<Longrightarrow> jsJoin sep xs \<noteq> []"
  by (induction sep xs rule: jsJoin.induct) simp_all

lemma multi_round_trip:
  assumes wf: "\<forall>a \<in> set xs. wellFormedSingle a \<and> \<not> containsSeparator a"
    and ends: "\<forall>a \<in> set (butlast xs). last a \<noteq> CHR ''|''"
  shows "formatMultiAccountRefresh (parseMultiAccountRefresh (jsJoin ACCOUNT_SEPARATOR xs))
           = jsJoin ACCOUNT_SEPARATOR xs"
proof (cases "xs = []")
  case True
  then show ?thesis
    by (simp add: formatMultiAccountRefresh_def parseMultiAccountRefresh_def)
next
  case False
  have ne: "\<forall>a \<in> set xs. a \<noteq> []"
    using wf wellFormedSingle_has_bar by fastforce
  have keep: "filter (\<lambda>s. jsTrim s \<noteq> []) xs = xs"
    using wf by (simp add: wellFormedSingle_trim)
  have sp: "jsSplit ''||'' (jsJoin ''||'' xs) = xs"
  proof (rule jsSplit_jsJoin [OF False])
    show "\<forall>a \<in> set xs. \<not> containsSeparator a" using wf by simp
    show "\<forall>a \<in> set (butlast xs). a \<noteq> [] \<and> last a \<noteq> CHR ''|''"
      using ne ends by (auto dest: in_set_butlastD)
  qed
  have inv: "map (formatRefreshParts \<circ> parseRefreshParts) xs = xs"
    using wf by (simp add: single_round_trip map_idI)
  have "parseMultiAccountRefresh (jsJoin ACCOUNT_SEPARATOR xs) = map parseRefreshParts xs"
    using False jsJoin_nonempty [OF False ne, of "''||''"]
    by (simp add: parseMultiAccountRefresh_def ACCOUNT_SEPARATOR_def sp keep Let_def)
  then show ?thesis
    by (simp add: formatMultiAccountRefresh_def inv keep)
qed

text \<open>
  The round trips that hold: a well-formed single-account string survives
  \<open>parseRefreshParts\<close> followed by \<open>formatRefreshParts\<close>, and the join of well-formed
  account strings by the separator survives \<open>parseMultiAccountRefresh\<close> followed by
  \<open>formatMultiAccountRefresh\<close> when no account string contains the separator and
  none but the last ends with a bar.
\<close>

lemma codec_round_trip_unambiguous:
  "(wellFormedSingle x \<longrightarrow> formatRefreshParts (parseRefreshParts x) = x)
   \<and> ((\<forall>a \<in> set xs. wellFormedSingle a \<and> \<not> containsSeparator a)
        \<and> (\<forall>a \<in> set (butlast xs). last a \<noteq> CHR ''|'')
      \<longrightarrow> formatMultiAccountRefresh (parseMultiAccountRefresh (jsJoin ACCOUNT_SEPARATOR xs))
            = jsJoin ACCOUNT_SEPARATOR xs)"
  using single_round_trip [of x] multi_round_trip [of xs] by blast

text \<open>
  C2. The multi-account round trip fails on strings that \<open>formatMultiAccountRefresh\<close>
  itself writes. An account without a project id is written \<open>refresh_1|\<close>; joined with a
  second account the string is \<open>refresh_1|||refresh_2|project_2\<close>, whose tokens
  \<open>refresh_1\<close> and \<open>refresh_2\<close> contain no separator. \<open>parseMultiAccountRefresh\<close> cuts it
  at the first two bars, so the second account comes back with an empty refresh token,
  \<open>refresh_2\<close> as its project id and \<open>project_2\<close> as its managed project id, and
  formatting the parsed accounts gives another string. An account with a managed project
  id and no project id is written \<open>tok||managed\<close>: alone it survives the single-account
  round trip, and \<open>parseMultiAccountRefresh\<close> reads it as two accounts.
\<close>

theorem C2_packed_accounts_read_back:
  "formatMultiAccountRefresh
      [\<lparr>refreshToken = ''refresh_1'', projectId = None, managedProjectId = None\<rparr>,
       \<lparr>refreshToken = ''refresh_2'', projectId = Some ''project_2'', managedProjectId = None\<rparr>]
     = ''refresh_1|||refresh_2|project_2''
   \<and> parseMultiAccountRefresh ''refresh_1|||refresh_2|project_2''
     = [\<lparr>refreshToken = ''refresh_1'', projectId = None, managedProjectId = None\<rparr>,
        \<lparr>refreshToken = [], projectId = Some ''refresh_2'',
         managedProjectId = Some ''project_2''\<rparr>]
   \<and> formatMultiAccountRefresh (parseMultiAccountRefresh ''refresh_1|||refresh_2|project_2'')
     = ''refresh_1||||refresh_2|project_2''
   \<and> formatMultiAccountRefresh (parseMultiAccountRefresh ''refresh_1|||refresh_2|project_2'')
     \<noteq> ''refresh_1|||refresh_2|project_2''
   \<and> wellFormedSingle ''refresh_1|'' \<and> wellFormedSingle ''refresh_2|project_2''
   \<and> \<not> containsSeparator ''refresh_1|'' \<and> \<not> containsSeparator ''refresh_2|project_2''
   \<and> formatMultiAccountRefresh
      [\<lparr>refreshToken = ''tok'', projectId = None, managedProjectId = Some ''managed''\<rparr>]
     = ''tok||managed''
   \<and> wellFormedSingle ''tok||managed''
   \<and> formatRefreshParts (parseRefreshParts ''tok||managed'') = ''tok||managed''
   \<and> parseMultiAccountRefresh ''tok||managed''
     = [\<lparr>refreshToken = ''tok'', projectId = None, managedProjectId = None\<rparr>,
        \<lparr>refreshToken = ''managed'', projectId = None, managedProjectId = None\<rparr>]
   \<and> formatMultiAccountRefresh (parseMultiAccountRefresh ''tok||managed'') = ''tok|||managed|''"
  by (simp add: wellFormedSingle_def formatMultiAccountRefresh_def parseMultiAccountRefresh_def
      jsSplit_def ACCOUNT_SEPARATOR_def parseRefreshParts_def formatRefreshParts_def
      segmentOr_def orUndefined_def jsTrim_def isWhiteSpace_def jsSplitFrom.simps)

subsection \<open>Loading the account store\<close>

lemma loadAccounts_returns: "\<exists>v. fst (loadAccounts parse stringify fs) = Inr v"
  by (cases "loadAccountsTry parse stringify fs"; cases "fst (loadAccountsTry parse stringify fs)")
    (auto simp: loadAccounts_def)

lemma loadAccounts_missing:
  "fileState fs = Missing \<Longrightarrow> loadAccounts parse stringify fs = (Inr JNull, fs)"
  by (simp add: loadAccounts_def loadAccountsTry_def)

lemma loadAccounts_unreadable:
  "fileState fs = Unreadable \<Longrightarrow> loadAccounts parse stringify fs = (Inr JNull, fs)"
  by (simp add: loadAccounts_def loadAccountsTry_def)

lemma loadAccounts_unparseable:
  "fileState fs = Text raw \<Longrightarrow> parse raw = None \<Longrightarrow>
   loadAccounts parse stringify fs = (Inr JNull, fs)"
  by (simp add: loadAccounts_def loadAccountsTry_def)

lemma loadAccounts_not_array:
  "fileState fs = Text raw \<Longrightarrow> parse raw = Some data \<Longrightarrow>
   \<forall>accs. getProp data ''accounts'' = Inr accs \<longrightarrow> \<not> isArray accs \<Longrightarrow>
   loadAccounts parse stringify fs = (Inr JNull, fs)"
  by (cases "getProp data ''accounts''") (simp_all add: loadAccounts_def loadAccountsTry_def)

lemma loadAccounts_unknown_version:
  "fileState fs = Text raw \<Longrightarrow> parse raw = Some data \<Longrightarrow>
   getProp data ''accounts'' = Inr accs \<Longrightarrow> isArray accs \<Longrightarrow>
   getProp data ''version'' = Inr ver \<Longrightarrow> ver \<noteq> JNum 1 \<Longrightarrow> ver \<noteq> JNum 2 \<Longrightarrow> ver \<noteq> JNum 3 \<Longrightarrow>
   loadAccounts parse stringify fs = (Inr JNull, fs)"
  by (simp add: loadAccounts_def loadAccountsTry_def)

text \<open>
  C5. \<open>loadAccounts\<close> never throws: whatever the file, the parser and the document,
  it returns a value. When the file is missing, when its text does not parse, when the
  document's \<open>accounts\<close> is not an array (or the document is \<open>null\<close>), and when
  \<open>accounts\<close> is an array but \<open>version\<close> is none of 1, 2, 3, the value is \<open>null\<close>
  and the file system is as before.
\<close>

theorem C5_loadAccounts_never_throws:
  "(\<exists>v. fst (loadAccounts parse stringify fs) = Inr v)
   \<and> (fileState fs = Missing \<longrightarrow> loadAccounts parse stringify fs = (Inr JNull, fs))
   \<and> (fileState fs = Text raw \<and> parse raw = None
        \<longrightarrow> loadAccounts parse stringify fs = (Inr JNull, fs))
   \<and> (fileState fs = Text raw \<and> parse raw = Some data
        \<and> (\<forall>accs. getProp data ''accounts'' = Inr accs \<longrightarrow> \<not> isArray accs)
        \<longrightarrow> loadAccounts parse stringify fs = (Inr JNull, fs))
   \<and> (fileState fs = Text raw \<and> parse raw = Some data
        \<and> getProp data ''accounts'' = Inr accs \<and> isArray accs
        \<and> getProp data ''version'' = Inr ver \<and> ver \<noteq> JNum 1 \<and> ver \<noteq> JNum 2 \<and> ver \<noteq> JNum 3
        \<longrightarrow> loadAccounts parse stringify fs = (Inr JNull, fs))"
proof (intro conjI impI)
  show "\<exists>v. fst (loadAccounts parse stringify fs) = Inr v"
    by (rule loadAccounts_returns)
  show "loadAccounts parse stringify fs = (Inr JNull, fs)" if "fileState fs = Missing"
    using that by (rule loadAccounts_missing)
  show "loadAccounts parse stringify fs = (Inr JNull, fs)"
    if "fileState fs = Text raw \<and> parse raw = None"
    using that by (intro loadAccounts_unparseable [of fs raw]) simp_all
  show "loadAccounts parse stringify fs = (Inr JNull, fs)"
    if "fileState fs = Text raw \<and> parse raw = Some data
        \<and> (\<forall>accs. getProp data ''accounts'' = Inr accs \<longrightarrow> \<not> isArray accs)"
    using that by (intro loadAccounts_not_array [of fs raw parse data]) simp_all
  show "loadAccounts parse stringify fs = (Inr JNull, fs)"
    if "fileState fs = Text raw \<and> parse raw = Some data
        \<and> getProp data ''accounts'' = Inr accs \<and> isArray accs
        \<and> getProp data ''version'' = Inr ver \<and> ver \<noteq> JNum 1 \<and> ver \<noteq> JNum 2 \<and> ver \<noteq> JNum 3"
    using that by (intro loadAccounts_unknown_version [of fs raw parse data accs ver]) simp_all
qed

theorem C5_loadAccounts_witness:
  "loadAccounts testParse testStringify \<lparr>fileState = Missing, writable = True, saveCalls = []\<rparr>
     = (Inr JNull, \<lparr>fileState = Missing, writable = True, saveCalls = []\<rparr>)
   \<and> loadAccounts testParse testStringify (fileWith ''invalid json'' True)
     = (Inr JNull, fileWith ''invalid json'' True)
   \<and> loadAccounts testParse testStringify (fileWith ''null'' True)
     = (Inr JNull, fileWith ''null'' True)
   \<and> loadAccounts testParse testStringify (fileWith ''v999'' True)
     = (Inr JNull, fileWith ''v999'' True)"
proof -
  let ?missing = "\<lparr>fileState = Missing, writable = True, saveCalls = []\<rparr>"
  have a: "fileState ?missing = Missing" by simp
  have b: "fileState (fileWith ''invalid json'' True) = Text ''invalid json''
      \<and> testParse ''invalid json'' = None"
    by (simp add: fileWith_def testParse_def)
  have c: "fileState (fileWith ''null'' True) = Text ''null'' \<and> testParse ''null'' = Some JNull
      \<and> (\<forall>accs. getProp JNull ''accounts'' = Inr accs \<longrightarrow> \<not> isArray accs)"
    by (simp add: fileWith_def testParse_def)
  let ?d = "JObj [(''version'', JNum 999), (''activeIndex'', JNum 0), (''accounts'', JArr [])]"
  have d: "fileState (fileWith ''v999'' True) = Text ''v999'' \<and> testParse ''v999'' = Some ?d
      \<and> getProp ?d ''accounts'' = Inr (JArr []) \<and> isArray (JArr [])
      \<and> getProp ?d ''version'' = Inr (JNum 999) \<and> JNum 999 \<noteq> JNum 1 \<and> JNum 999 \<noteq> JNum 2
      \<and> JNum 999 \<noteq> JNum 3"
    by (simp add: fileWith_def testParse_def)
  note t1 = C5_loadAccounts_never_throws [where parse = testParse and stringify = testStringify
      and fs = ?missing]
  note t2 = C5_loadAccounts_never_throws [where parse = testParse and stringify = testStringify
      and fs = "fileWith ''invalid json'' True" and raw = "''invalid json''"]
  note t3 = C5_loadAccounts_never_throws [where parse = testParse and stringify = testStringify
      and fs = "fileWith ''null'' True" and raw = "''null''" and data = JNull]
  note t4 = C5_loadAccounts_never_throws [where parse = testParse and stringify = testStringify
      and fs = "fileWith ''v999'' True" and raw = "''v999''" and data = ?d and accs = "JArr []"
      and ver = "JNum 999"]
  have r1: "loadAccounts testParse testStringify ?missing = (Inr JNull, ?missing)"
    using t1 a by blast
  have r2: "loadAccounts testParse testStringify (fileWith ''invalid json'' True)
      = (Inr JNull, fileWith ''invalid json'' True)"
    using t2 b by blast
  have r3: "loadAccounts testParse testStringify (fileWith ''null'' True)
      = (Inr JNull, fileWith ''null'' True)"
    using t3 c by blast
  have r4: "loadAccounts testParse testStringify (fileWith ''v999'' True)
      = (Inr JNull, fileWith ''v999'' True)"
    using t4 d by blast
  show ?thesis
    using r1 r2 r3 r4 by (intro conjI)
qed

subsection \<open>Migration\<close>

lemma getProp_propOf: "\<not> nullish a \<Longrightarrow> getProp a k = Inr (propOf a k)"
  by (cases a) (simp_all add: propOf_def)

lemma truthy_not_nullish: "truthy a \<Longrightarrow> \<not> nullish a"
  by (cases a) simp_all

lemma getProp_Inr_not_nullish: "getProp a k = Inr v \<Longrightarrow> \<not> nullish a"
  by (cases a) simp_all

lemma mapE_ok:
  "\<forall>x \<in> set xs. \<exists>y. f x = Inr y \<Longrightarrow>
   \<exists>ys. mapE f xs = Inr ys \<and> length ys = length xs \<and> (\<forall>i < length xs. f (xs ! i) = Inr (ys ! i))"
proof (induction xs)
  case Nil
  then show ?case by simp
next
  case (Cons x xs)
  then obtain y where y: "f x = Inr y" by auto
  from Cons obtain ys where ys: "mapE f xs = Inr ys" "length ys = length xs"
      "\<forall>i < length xs. f (xs ! i) = Inr (ys ! i)"
    by auto
  have "\<forall>i < length (x # xs). f ((x # xs) ! i) = Inr ((y # ys) ! i)"
    using y ys(3) by (auto simp: nth_Cons split: nat.splits)
  then show ?case
    using y ys by auto
qed

lemma migrateAccountV1_ok:
  assumes "\<not> nullish acc"
  shows "\<exists>kvs. migrateAccountV1 acc = Inr (JObj kvs)
           \<and> map_of kvs ''rateLimitResetTimes'' = Some (legacyResetTimes acc)"
  by (simp add: migrateAccountV1_def thenE_def getProp_propOf [OF assms] legacyResetTimes_def)

lemma migrateAccountV2_ok:
  assumes "\<not> nullish acc"
  shows "\<exists>kvs. migrateAccountV2 acc = Inr (JObj kvs)
           \<and> map_of kvs ''rateLimitResetTimes''
               = Some (splitGemini (propOf acc ''rateLimitResetTimes''))"
proof (cases "truthy (propOf acc ''rateLimitResetTimes'')")
  case True
  then have "\<not> nullish (propOf acc ''rateLimitResetTimes'')"
    by (rule truthy_not_nullish)
  then show ?thesis
    using True
    by (simp add: migrateAccountV2_def thenE_def getProp_propOf [OF assms] getProp_propOf
        splitGemini_def Let_def)
next
  case False
  then show ?thesis
    by (simp add: migrateAccountV2_def thenE_def getProp_propOf [OF assms] splitGemini_def Let_def)
qed

lemma propOf_JObj: "propOf (JObj kvs) k = (case map_of kvs k of None \<Rightarrow> JUndefined | Some v \<Rightarrow> v)"
  by (simp add: propOf_def)

lemma mapE_migrateV1:
  assumes "list_all (\<lambda>a. \<not> nullish a) accs"
  shows "\<exists>accs2. mapE migrateAccountV1 accs = Inr accs2 \<and> length accs2 = length accs
           \<and> list_all (\<lambda>a. \<not> nullish a) accs2
           \<and> (\<forall>i < length accs. propOf (accs2 ! i) ''rateLimitResetTimes''
                 = legacyResetTimes (accs ! i))"
proof -
  have "\<forall>x \<in> set accs. \<exists>y. migrateAccountV1 x = Inr y"
    using assms migrateAccountV1_ok by (fastforce simp: list_all_iff)
  from mapE_ok [OF this] obtain accs2 where a: "mapE migrateAccountV1 accs = Inr accs2"
      "length accs2 = length accs" "\<forall>i < length accs. migrateAccountV1 (accs ! i) = Inr (accs2 ! i)"
    by blast
  have each: "\<not> nullish (accs2 ! i) \<and> propOf (accs2 ! i) ''rateLimitResetTimes''
                 = legacyResetTimes (accs ! i)" if "i < length accs" for i
  proof -
    have "\<not> nullish (accs ! i)"
      using assms that by (simp add: list_all_length)
    from migrateAccountV1_ok [OF this] a(3) that show ?thesis
      by (auto simp: propOf_JObj)
  qed
  then have "list_all (\<lambda>a. \<not> nullish a) accs2"
    using a(2) by (simp add: list_all_length)
  then show ?thesis
    using a each by blast
qed

lemma mapE_migrateV2:
  assumes "list_all (\<lambda>a. \<not> nullish a) accs"
  shows "\<exists>accs3. mapE migrateAccountV2 accs = Inr accs3 \<and> length accs3 = length accs
           \<and> list_all (\<lambda>a. \<not> nullish a) accs3
           \<and> (\<forall>i < length accs. propOf (accs3 ! i) ''rateLimitResetTimes''
                 = splitGemini (propOf (accs ! i) ''rateLimitResetTimes''))"
proof -
  have "\<forall>x \<in> set accs. \<exists>y. migrateAccountV2 x = Inr y"
    using assms migrateAccountV2_ok by (fastforce simp: list_all_iff)
  from mapE_ok [OF this] obtain accs3 where a: "mapE migrateAccountV2 accs = Inr accs3"
      "length accs3 = length accs" "\<forall>i < length accs. migrateAccountV2 (accs ! i) = Inr (accs3 ! i)"
    by blast
  have each: "\<not> nullish (accs3 ! i) \<and> propOf (accs3 ! i) ''rateLimitResetTimes''
                 = splitGemini (propOf (accs ! i) ''rateLimitResetTimes'')" if "i < length accs" for i
  proof -
    have "\<not> nullish (accs ! i)"
      using assms that by (simp add: list_all_length)
    from migrateAccountV2_ok [OF this] a(3) that show ?thesis
      by (auto simp: propOf_JObj)
  qed
  then have "list_all (\<lambda>a. \<not> nullish a) accs3"
    using a(2) by (simp add: list_all_length)
  then show ?thesis
    using a each by blast
qed

lemma upgradeV2:
  assumes "getProp data ''accounts'' = Inr (JArr accs)" "list_all (\<lambda>a. \<not> nullish a) accs"
  shows "\<exists>accs3. migrateV2ToV3 data
             = Inr (JObj [(''version'', JNum 3), (''accounts'', JArr accs3),
                          (''activeIndex'', propOf data ''activeIndex'')])
           \<and> length accs3 = length accs \<and> list_all (\<lambda>a. \<not> nullish a) accs3
           \<and> (\<forall>i < length accs. propOf (accs3 ! i) ''rateLimitResetTimes''
                 = splitGemini (propOf (accs ! i) ''rateLimitResetTimes''))"
proof -
  have nn: "\<not> nullish data"
    using assms(1) by (rule getProp_Inr_not_nullish)
  from mapE_migrateV2 [OF assms(2)] obtain accs3 where a:
      "mapE migrateAccountV2 accs = Inr accs3" "length accs3 = length accs"
      "list_all (\<lambda>a. \<not> nullish a) accs3"
      "\<forall>i < length accs. propOf (accs3 ! i) ''rateLimitResetTimes''
                 = splitGemini (propOf (accs ! i) ''rateLimitResetTimes'')"
    by blast
  have "migrateV2ToV3 data
             = Inr (JObj [(''version'', JNum 3), (''accounts'', JArr accs3),
                          (''activeIndex'', propOf data ''activeIndex'')])"
    using a(1) by (simp add: migrateV2ToV3_def thenE_def assms(1) getProp_propOf [OF nn, of "''activeIndex''"])
  then show ?thesis
    using a(2,3,4) by blast
qed

lemma upgradeV1:
  assumes "getProp data ''accounts'' = Inr (JArr accs)" "list_all (\<lambda>a. \<not> nullish a) accs"
  shows "\<exists>accs3. thenE (migrateV1ToV2 data) migrateV2ToV3
             = Inr (JObj [(''version'', JNum 3), (''accounts'', JArr accs3),
                          (''activeIndex'', propOf data ''activeIndex'')])
           \<and> length accs3 = length accs \<and> list_all (\<lambda>a. \<not> nullish a) accs3
           \<and> (\<forall>i < length accs. propOf (accs3 ! i) ''rateLimitResetTimes''
                 = splitGemini (legacyResetTimes (accs ! i)))"
proof -
  have nn: "\<not> nullish data"
    using assms(1) by (rule getProp_Inr_not_nullish)
  from mapE_migrateV1 [OF assms(2)] obtain accs2 where a:
      "mapE migrateAccountV1 accs = Inr accs2" "length accs2 = length accs"
      "list_all (\<lambda>a. \<not> nullish a) accs2"
      "\<forall>i < length accs. propOf (accs2 ! i) ''rateLimitResetTimes'' = legacyResetTimes (accs ! i)"
    by blast
  let ?v2 = "JObj [(''version'', JNum 2), (''accounts'', JArr accs2),
                   (''activeIndex'', propOf data ''activeIndex'')]"
  have v2: "migrateV1ToV2 data = Inr ?v2"
    using a(1) by (simp add: migrateV1ToV2_def thenE_def assms(1) getProp_propOf [OF nn, of "''activeIndex''"])
  have acc2: "getProp ?v2 ''accounts'' = Inr (JArr accs2)"
    by simp
  from upgradeV2 [OF acc2 a(3)] obtain accs3 where b:
      "migrateV2ToV3 ?v2 = Inr (JObj [(''version'', JNum 3), (''accounts'', JArr accs3),
                          (''activeIndex'', propOf ?v2 ''activeIndex'')])"
      "length accs3 = length accs2" "list_all (\<lambda>a. \<not> nullish a) accs3"
      "\<forall>i < length accs2. propOf (accs3 ! i) ''rateLimitResetTimes''
                 = splitGemini (propOf (accs2 ! i) ''rateLimitResetTimes'')"
    by blast
  have "thenE (migrateV1ToV2 data) migrateV2ToV3
             = Inr (JObj [(''version'', JNum 3), (''accounts'', JArr accs3),
                          (''activeIndex'', propOf data ''activeIndex'')])"
    using b(1) by (simp add: v2 thenE_def propOf_JObj)
  moreover have "length accs3 = length accs"
    using a(2) b(2) by simp
  moreover have "\<forall>i < length accs. propOf (accs3 ! i) ''rateLimitResetTimes''
                 = splitGemini (legacyResetTimes (accs ! i))"
    using a(2,4) b(4) by simp
  ultimately show ?thesis using b(3) by blast
qed

lemma clampActiveIndex_upgraded:
  "clampActiveIndex (JObj [(''version'', JNum 3), (''accounts'', JArr accs), (''activeIndex'', a)])
     = Inr (JObj [(''version'', JNum 3), (''accounts'', JArr accs),
                  (''activeIndex'', repairedIndex a (length accs))])"
  by (cases a) (auto simp: clampActiveIndex_def thenE_def repairedIndex_def Let_def)

lemma clampActiveIndex_valid:
  assumes "getProp data ''accounts'' = Inr (JArr accs)"
    "getProp data ''activeIndex'' = Inr (JNum n)" "of_int \<lfloor>n\<rfloor> = n" "0 \<le> n"
    "n < of_nat (length accs)"
  shows "clampActiveIndex data = Inr data"
  using assms by (simp add: clampActiveIndex_def thenE_def Let_def)

lemma load_v3:
  assumes "fileState fs = Text raw" "parse raw = Some data"
    "getProp data ''version'' = Inr (JNum 3)" "getProp data ''accounts'' = Inr (JArr accs)"
    "getProp data ''activeIndex'' = Inr (JNum n)" "of_int \<lfloor>n\<rfloor> = n" "0 \<le> n"
    "n < of_nat (length accs)"
  shows "loadAccounts parse stringify fs = (Inr data, fs)"
  using assms clampActiveIndex_valid [OF assms(4-8)]
  by (simp add: loadAccounts_def loadAccountsTry_def)

lemma load_v1:
  assumes "fileState fs = Text raw" "parse raw = Some data"
    "getProp data ''version'' = Inr (JNum 1)" "getProp data ''accounts'' = Inr (JArr accs)"
    "thenE (migrateV1ToV2 data) migrateV2ToV3
       = Inr (JObj [(''version'', JNum 3), (''accounts'', JArr accs3), (''activeIndex'', a)])"
  shows "loadAccounts parse stringify fs =
     (if writable fs
      then (Inr (JObj [(''version'', JNum 3), (''accounts'', JArr accs3),
                       (''activeIndex'', repairedIndex a (length accs3))]),
            fs\<lparr>saveCalls := saveCalls fs @
                    [JObj [(''version'', JNum 3), (''accounts'', JArr accs3), (''activeIndex'', a)]],
               fileState := Text (stringify
                    (JObj [(''version'', JNum 3), (''accounts'', JArr accs3), (''activeIndex'', a)]))\<rparr>)
      else (Inr JNull,
            fs\<lparr>saveCalls := saveCalls fs @
                    [JObj [(''version'', JNum 3), (''accounts'', JArr accs3), (''activeIndex'', a)]]\<rparr>))"
  using assms
  by (simp add: loadAccounts_def loadAccountsTry_def saveAccounts_def Let_def
      clampActiveIndex_upgraded)

lemma load_v2:
  assumes "fileState fs = Text raw" "parse raw = Some data"
    "getProp data ''version'' = Inr (JNum 2)" "getProp data ''accounts'' = Inr (JArr accs)"
    "migrateV2ToV3 data
       = Inr (JObj [(''version'', JNum 3), (''accounts'', JArr accs3), (''activeIndex'', a)])"
  shows "loadAccounts parse stringify fs =
     (if writable fs
      then (Inr (JObj [(''version'', JNum 3), (''accounts'', JArr accs3),
                       (''activeIndex'', repairedIndex a (length accs3))]),
            fs\<lparr>saveCalls := saveCalls fs @
                    [JObj [(''version'', JNum 3), (''accounts'', JArr accs3), (''activeIndex'', a)]],
               fileState := Text (stringify
                    (JObj [(''version'', JNum 3), (''accounts'', JArr accs3), (''activeIndex'', a)]))\<rparr>)
      else (Inr JNull,
            fs\<lparr>saveCalls := saveCalls fs @
                    [JObj [(''version'', JNum 3), (''accounts'', JArr accs3), (''activeIndex'', a)]]\<rparr>))"
  using assms
  by (simp add: loadAccounts_def loadAccountsTry_def saveAccounts_def Let_def
      clampActiveIndex_upgraded)

text \<open>
  C9. Loading a valid v3 document (version 3, an array of accounts, \<open>activeIndex\<close> an
  integer within bounds) returns that document and leaves the file system as it was:
  \<open>saveAccounts\<close> is not invoked. Loading a v1 or a v2 document whose accounts are
  objects invokes \<open>saveAccounts\<close> once, with the upgraded v3 document, before it
  returns; when the write succeeds the file holds that document and the call returns it
  with \<open>activeIndex\<close> repaired.
\<close>

theorem C9_v3_load_is_read_only_and_migrations_persist:
  "(fileState fs = Text raw \<and> parse raw = Some data
      \<and> getProp data ''version'' = Inr (JNum 3) \<and> getProp data ''accounts'' = Inr (JArr accs)
      \<and> getProp data ''activeIndex'' = Inr (JNum n) \<and> of_int \<lfloor>n\<rfloor> = n \<and> 0 \<le> n
      \<and> n < of_nat (length accs)
    \<longrightarrow> loadAccounts parse stringify fs = (Inr data, fs))
   \<and>
   (fileState fs = Text raw \<and> parse raw = Some data
      \<and> getProp data ''version'' = Inr (JNum 1) \<and> getProp data ''accounts'' = Inr (JArr accs)
      \<and> list_all (\<lambda>a. \<not> nullish a) accs
    \<longrightarrow> (\<exists>v3 accs3.
          thenE (migrateV1ToV2 data) migrateV2ToV3 = Inr v3
          \<and> v3 = JObj [(''version'', JNum 3), (''accounts'', JArr accs3),
                       (''activeIndex'', propOf data ''activeIndex'')]
          \<and> saveCalls (snd (loadAccounts parse stringify fs)) = saveCalls fs @ [v3]
          \<and> (writable fs \<longrightarrow>
                fileState (snd (loadAccounts parse stringify fs)) = Text (stringify v3)
                \<and> fst (loadAccounts parse stringify fs)
                    = Inr (setProp v3 ''activeIndex''
                        (repairedIndex (propOf data ''activeIndex'') (length accs3))))))
   \<and>
   (fileState fs = Text raw \<and> parse raw = Some data
      \<and> getProp data ''version'' = Inr (JNum 2) \<and> getProp data ''accounts'' = Inr (JArr accs)
      \<and> list_all (\<lambda>a. \<not> nullish a) accs
    \<longrightarrow> (\<exists>v3 accs3.
          migrateV2ToV3 data = Inr v3
          \<and> v3 = JObj [(''version'', JNum 3), (''accounts'', JArr accs3),
                       (''activeIndex'', propOf data ''activeIndex'')]
          \<and> saveCalls (snd (loadAccounts parse stringify fs)) = saveCalls fs @ [v3]
          \<and> (writable fs \<longrightarrow>
                fileState (snd (loadAccounts parse stringify fs)) = Text (stringify v3)
                \<and> fst (loadAccounts parse stringify fs)
                    = Inr (setProp v3 ''activeIndex''
                        (repairedIndex (propOf data ''activeIndex'') (length accs3))))))"
proof (intro conjI impI)
  assume h: "fileState fs = Text raw \<and> parse raw = Some data
      \<and> getProp data ''version'' = Inr (JNum 3) \<and> getProp data ''accounts'' = Inr (JArr accs)
      \<and> getProp data ''activeIndex'' = Inr (JNum n) \<and> of_int \<lfloor>n\<rfloor> = n \<and> 0 \<le> n
      \<and> n < of_nat (length accs)"
  then show "loadAccounts parse stringify fs = (Inr data, fs)"
    by (intro load_v3 [of fs raw parse data accs n]) simp_all
next
  assume h: "fileState fs = Text raw \<and> parse raw = Some data
      \<and> getProp data ''version'' = Inr (JNum 1) \<and> getProp data ''accounts'' = Inr (JArr accs)
      \<and> list_all (\<lambda>a. \<not> nullish a) accs"
  then obtain accs3 where up: "thenE (migrateV1ToV2 data) migrateV2ToV3
             = Inr (JObj [(''version'', JNum 3), (''accounts'', JArr accs3),
                          (''activeIndex'', propOf data ''activeIndex'')])"
    using upgradeV1 [of data accs] by blast
  note ld = load_v1 [OF _ _ _ _ up, of fs raw parse accs stringify]
  show "\<exists>v3 accs3.
          thenE (migrateV1ToV2 data) migrateV2ToV3 = Inr v3
          \<and> v3 = JObj [(''version'', JNum 3), (''accounts'', JArr accs3),
                       (''activeIndex'', propOf data ''activeIndex'')]
          \<and> saveCalls (snd (loadAccounts parse stringify fs)) = saveCalls fs @ [v3]
          \<and> (writable fs \<longrightarrow>
                fileState (snd (loadAccounts parse stringify fs)) = Text (stringify v3)
                \<and> fst (loadAccounts parse stringify fs)
                    = Inr (setProp v3 ''activeIndex''
                        (repairedIndex (propOf data ''activeIndex'') (length accs3))))"
    using h up by (intro exI [of _ "JObj [(''version'', JNum 3), (''accounts'', JArr accs3),
                          (''activeIndex'', propOf data ''activeIndex'')]"] exI [of _ accs3])
      (simp add: ld)
next
  assume h: "fileState fs = Text raw \<and> parse raw = Some data
      \<and> getProp data ''version'' = Inr (JNum 2) \<and> getProp data ''accounts'' = Inr (JArr accs)
      \<and> list_all (\<lambda>a. \<not> nullish a) accs"
  then obtain accs3 where up: "migrateV2ToV3 data
             = Inr (JObj [(''version'', JNum 3), (''accounts'', JArr accs3),
                          (''activeIndex'', propOf data ''activeIndex'')])"
    using upgradeV2 [of data accs] by blast
  note ld = load_v2 [OF _ _ _ _ up, of fs raw parse accs stringify]
  show "\<exists>v3 accs3.
          migrateV2ToV3 data = Inr v3
          \<and> v3 = JObj [(''version'', JNum 3), (''accounts'', JArr accs3),
                       (''activeIndex'', propOf data ''activeIndex'')]
          \<and> saveCalls (snd (loadAccounts parse stringify fs)) = saveCalls fs @ [v3]
          \<and> (writable fs \<longrightarrow>
                fileState (snd (loadAccounts parse stringify fs)) = Text (stringify v3)
                \<and> fst (loadAccounts parse stringify fs)
                    = Inr (setProp v3 ''activeIndex''
                        (repairedIndex (propOf data ''activeIndex'') (length accs3))))"
    using h up by (intro exI [of _ "JObj [(''version'', JNum 3), (''accounts'', JArr accs3),
                          (''activeIndex'', propOf data ''activeIndex'')]"] exI [of _ accs3])
      (simp add: ld)
qed

lemma migrate_v2Document: "migrateV2ToV3 v2Document = Inr v2Upgraded"
  by (simp add: migrateV2ToV3_def migrateAccountV2_def thenE_def v2Document_def v2Upgraded_def)

lemma migrate_v1Document: "thenE (migrateV1ToV2 v1Document) migrateV2ToV3 = Inr v1Upgraded"
  by (simp add: migrateV1ToV2_def migrateAccountV1_def migrateV2ToV3_def migrateAccountV2_def
      thenE_def v1Document_def v1Upgraded_def)

theorem C9_load_witness:
  "loadAccounts testParse testStringify (fileWith ''v3'' True) = (Inr v3Document, fileWith ''v3'' True)
   \<and> saveCalls (snd (loadAccounts testParse testStringify (fileWith ''v3'' True))) = []
   \<and> saveCalls (snd (loadAccounts testParse testStringify (fileWith ''v2'' True))) = [v2Upgraded]
   \<and> fileState (snd (loadAccounts testParse testStringify (fileWith ''v2'' True)))
       = Text (testStringify v2Upgraded)
   \<and> saveCalls (snd (loadAccounts testParse testStringify (fileWith ''v1'' True))) = [v1Upgraded]"
proof -
  let ?accs3 = "elements (propOf v3Document ''accounts'')"
  let ?accs2 = "elements (propOf v2Document ''accounts'')"
  let ?accs1 = "elements (propOf v1Document ''accounts'')"
  note i3 = C9_v3_load_is_read_only_and_migrations_persist
    [where fs = "fileWith ''v3'' True" and raw = "''v3''" and parse = testParse
       and data = v3Document and accs = ?accs3 and n = 1 and stringify = testStringify]
  note i2 = C9_v3_load_is_read_only_and_migrations_persist
    [where fs = "fileWith ''v2'' True" and raw = "''v2''" and parse = testParse
       and data = v2Document and accs = ?accs2 and stringify = testStringify]
  note i1 = C9_v3_load_is_read_only_and_migrations_persist
    [where fs = "fileWith ''v1'' True" and raw = "''v1''" and parse = testParse
       and data = v1Document and accs = ?accs1 and stringify = testStringify]
  have h3: "fileState (fileWith ''v3'' True) = Text ''v3'' \<and> testParse ''v3'' = Some v3Document
      \<and> getProp v3Document ''version'' = Inr (JNum 3)
      \<and> getProp v3Document ''accounts'' = Inr (JArr ?accs3)
      \<and> getProp v3Document ''activeIndex'' = Inr (JNum 1) \<and> of_int \<lfloor>1::rat\<rfloor> = (1::rat)
      \<and> (0::rat) \<le> 1 \<and> (1::rat) < of_nat (length ?accs3)"
    by (simp add: fileWith_def testParse_def v3Document_def propOf_def)
  have h2: "fileState (fileWith ''v2'' True) = Text ''v2'' \<and> testParse ''v2'' = Some v2Document
      \<and> getProp v2Document ''version'' = Inr (JNum 2)
      \<and> getProp v2Document ''accounts'' = Inr (JArr ?accs2)
      \<and> list_all (\<lambda>a. \<not> nullish a) ?accs2"
    by (simp add: fileWith_def testParse_def v2Document_def propOf_def)
  have h1: "fileState (fileWith ''v1'' True) = Text ''v1'' \<and> testParse ''v1'' = Some v1Document
      \<and> getProp v1Document ''version'' = Inr (JNum 1)
      \<and> getProp v1Document ''accounts'' = Inr (JArr ?accs1)
      \<and> list_all (\<lambda>a. \<not> nullish a) ?accs1"
    by (simp add: fileWith_def testParse_def v1Document_def propOf_def)
  have r3: "loadAccounts testParse testStringify (fileWith ''v3'' True)
      = (Inr v3Document, fileWith ''v3'' True)"
    using mp [OF conjunct1 [OF i3] h3] .
  have w: "writable (fileWith ''v2'' True)" "saveCalls (fileWith ''v2'' True) = []"
    "saveCalls (fileWith ''v1'' True) = []"
    by (simp_all add: fileWith_def)
  from mp [OF conjunct2 [OF conjunct2 [OF i2]] h2] w
  have r2: "saveCalls (snd (loadAccounts testParse testStringify (fileWith ''v2'' True)))
        = [v2Upgraded]
      \<and> fileState (snd (loadAccounts testParse testStringify (fileWith ''v2'' True)))
        = Text (testStringify v2Upgraded)"
    by (auto simp: migrate_v2Document)
  from mp [OF conjunct1 [OF conjunct2 [OF i1]] h1] w
  have r1: "saveCalls (snd (loadAccounts testParse testStringify (fileWith ''v1'' True)))
        = [v1Upgraded]"
    by (auto simp: migrate_v1Document)
  have s3: "saveCalls (snd (loadAccounts testParse testStringify (fileWith ''v3'' True))) = []"
    unfolding r3 by (simp add: fileWith_def)
  show ?thesis
    using r3 s3 r2 r1 by (intro conjI) simp_all
qed

subsection \<open>Migration chain\<close>

lemma loaded_v1:
  assumes "fileState fs = Text raw" "parse raw = Some data"
    "getProp data ''version'' = Inr (JNum 1)" "getProp data ''accounts'' = Inr (JArr accs)"
    "list_all (\<lambda>a. \<not> nullish a) accs" "writable fs" "i < length accs"
  shows "loadedVersion parse stringify fs = Inr (JNum 3)
       \<and> loadedResetTimes parse stringify fs i = Inr (splitGemini (legacyResetTimes (accs ! i)))"
proof -
  from upgradeV1 [OF assms(4,5)] obtain accs3 where up:
      "thenE (migrateV1ToV2 data) migrateV2ToV3
         = Inr (JObj [(''version'', JNum 3), (''accounts'', JArr accs3),
                      (''activeIndex'', propOf data ''activeIndex'')])"
      "length accs3 = length accs" "list_all (\<lambda>a. \<not> nullish a) accs3"
      "\<forall>i < length accs. propOf (accs3 ! i) ''rateLimitResetTimes''
                 = splitGemini (legacyResetTimes (accs ! i))"
    by blast
  have ld: "fst (loadAccounts parse stringify fs)
      = Inr (JObj [(''version'', JNum 3), (''accounts'', JArr accs3),
                   (''activeIndex'', repairedIndex (propOf data ''activeIndex'') (length accs3))])"
    using load_v1 [where fs = fs and raw = raw and parse = parse and data = data and accs = accs
        and ?accs3.0 = accs3 and a = "propOf data ''activeIndex''" and stringify = stringify]
      assms(1-4,6) up(1)
    by simp
  have nn: "\<not> nullish (accs3 ! i)"
    using up(2,3) assms(7) by (simp add: list_all_length)
  show ?thesis
    using up(2,4) assms(7)
    by (simp add: loadedVersion_def loadedResetTimes_def ld thenE_def elementAt_def
        getProp_propOf [OF nn])
qed

lemma loaded_v2:
  assumes "fileState fs = Text raw" "parse raw = Some data"
    "getProp data ''version'' = Inr (JNum 2)" "getProp data ''accounts'' = Inr (JArr accs)"
    "list_all (\<lambda>a. \<not> nullish a) accs" "writable fs" "i < length accs"
  shows "loadedVersion parse stringify fs = Inr (JNum 3)
       \<and> loadedResetTimes parse stringify fs i
           = Inr (splitGemini (propOf (accs ! i) ''rateLimitResetTimes''))"
proof -
  from upgradeV2 [OF assms(4,5)] obtain accs3 where up:
      "migrateV2ToV3 data
         = Inr (JObj [(''version'', JNum 3), (''accounts'', JArr accs3),
                      (''activeIndex'', propOf data ''activeIndex'')])"
      "length accs3 = length accs" "list_all (\<lambda>a. \<not> nullish a) accs3"
      "\<forall>i < length accs. propOf (accs3 ! i) ''rateLimitResetTimes''
                 = splitGemini (propOf (accs ! i) ''rateLimitResetTimes'')"
    by blast
  have ld: "fst (loadAccounts parse stringify fs)
      = Inr (JObj [(''version'', JNum 3), (''accounts'', JArr accs3),
                   (''activeIndex'', repairedIndex (propOf data ''activeIndex'') (length accs3))])"
    using load_v2 [where fs = fs and raw = raw and parse = parse and data = data and accs = accs
        and ?accs3.0 = accs3 and a = "propOf data ''activeIndex''" and stringify = stringify]
      assms(1-4,6) up(1)
    by simp
  have nn: "\<not> nullish (accs3 ! i)"
    using up(2,3) assms(7) by (simp add: list_all_length)
  show ?thesis
    using up(2,4) assms(7)
    by (simp add: loadedVersion_def loadedResetTimes_def ld thenE_def elementAt_def
        getProp_propOf [OF nn])
qed

lemma getProp_value_propOf: "getProp a k = Inr v \<Longrightarrow> propOf a k = v"
  by (simp add: propOf_def)

lemma getProp_defined_truthy: "getProp a k = Inr (JNum t) \<Longrightarrow> truthy a"
  by (cases a) simp_all

lemma legacy_limited:
  assumes "getProp acc ''isRateLimited'' = Inr (JBool True)"
    "getProp acc ''rateLimitResetTime'' = Inr (JNum T)" "T \<noteq> 0"
  shows "splitGemini (legacyResetTimes acc)
           = JObj [(''claude'', JNum T), (''gemini-flash'', JNum T), (''gemini-pro'', JNum T)]"
  using assms(3)
  by (simp add: legacyResetTimes_def splitGemini_def Let_def propOf_JObj
      getProp_value_propOf [OF assms(1)] getProp_value_propOf [OF assms(2)])

lemma legacy_not_limited:
  assumes "getProp acc ''isRateLimited'' = Inr r" "\<not> truthy r"
  shows "splitGemini (legacyResetTimes acc) = JUndefined"
  using assms(2)
  by (simp add: legacyResetTimes_def splitGemini_def Let_def getProp_value_propOf [OF assms(1)])

lemma split_gemini_only:
  assumes "getProp acc ''rateLimitResetTimes'' = Inr old" "getProp old ''gemini'' = Inr (JNum T)"
    "getProp old ''claude'' = Inr JUndefined"
  shows "splitGemini (propOf acc ''rateLimitResetTimes'')
           = JObj [(''gemini-flash'', JNum T), (''gemini-pro'', JNum T)]"
  using getProp_defined_truthy [OF assms(2)]
  by (simp add: splitGemini_def Let_def getProp_value_propOf [OF assms(1)]
      getProp_value_propOf [OF assms(2)] getProp_value_propOf [OF assms(3)])

lemma split_gemini_claude:
  assumes "getProp acc ''rateLimitResetTimes'' = Inr old" "getProp old ''gemini'' = Inr (JNum T)"
    "getProp old ''claude'' = Inr (JNum C)"
  shows "splitGemini (propOf acc ''rateLimitResetTimes'')
           = JObj [(''claude'', JNum C), (''gemini-flash'', JNum T), (''gemini-pro'', JNum T)]"
  using getProp_defined_truthy [OF assms(2)]
  by (simp add: splitGemini_def Let_def getProp_value_propOf [OF assms(1)]
      getProp_value_propOf [OF assms(2)] getProp_value_propOf [OF assms(3)])

text \<open>
  C3 (amended). Let the file hold a v1 document whose accounts are objects, and let the
  write of the upgraded document succeed. Then \<open>loadAccounts\<close> returns a version 3
  document in which an account that had \<open>isRateLimited = true\<close> and a non-zero
  \<open>rateLimitResetTime = T\<close> has \<open>rateLimitResetTimes\<close> equal to
  \<open>{claude: T, "gemini-flash": T, "gemini-pro": T}\<close>, and an account whose
  \<open>isRateLimited\<close> is false or absent has \<open>rateLimitResetTimes\<close> undefined. For a v2
  document under the same conditions, an account with \<open>rateLimitResetTimes.gemini = T\<close>
  gets \<open>"gemini-flash" = T\<close> and \<open>"gemini-pro" = T\<close>; \<open>claude\<close> stays absent when it
  was absent and keeps its value when it had one.
\<close>

theorem C3_migration_chain:
  "(fileState fs = Text raw \<and> parse raw = Some data
      \<and> getProp data ''version'' = Inr (JNum 1) \<and> getProp data ''accounts'' = Inr (JArr accs)
      \<and> list_all (\<lambda>a. \<not> nullish a) accs \<and> writable fs \<and> i < length accs
      \<and> getProp (accs ! i) ''isRateLimited'' = Inr (JBool True)
      \<and> getProp (accs ! i) ''rateLimitResetTime'' = Inr (JNum T) \<and> T \<noteq> 0
    \<longrightarrow> loadedVersion parse stringify fs = Inr (JNum 3)
      \<and> loadedResetTimes parse stringify fs i
          = Inr (JObj [(''claude'', JNum T), (''gemini-flash'', JNum T), (''gemini-pro'', JNum T)]))
   \<and>
   (fileState fs = Text raw \<and> parse raw = Some data
      \<and> getProp data ''version'' = Inr (JNum 1) \<and> getProp data ''accounts'' = Inr (JArr accs)
      \<and> list_all (\<lambda>a. \<not> nullish a) accs \<and> writable fs \<and> i < length accs
      \<and> getProp (accs ! i) ''isRateLimited'' = Inr r \<and> \<not> truthy r
    \<longrightarrow> loadedVersion parse stringify fs = Inr (JNum 3)
      \<and> loadedResetTimes parse stringify fs i = Inr JUndefined)
   \<and>
   (fileState fs = Text raw \<and> parse raw = Some data
      \<and> getProp data ''version'' = Inr (JNum 2) \<and> getProp data ''accounts'' = Inr (JArr accs)
      \<and> list_all (\<lambda>a. \<not> nullish a) accs \<and> writable fs \<and> i < length accs
      \<and> getProp (accs ! i) ''rateLimitResetTimes'' = Inr old
      \<and> getProp old ''gemini'' = Inr (JNum T) \<and> getProp old ''claude'' = Inr JUndefined
    \<longrightarrow> loadedVersion parse stringify fs = Inr (JNum 3)
      \<and> loadedResetTimes parse stringify fs i
          = Inr (JObj [(''gemini-flash'', JNum T), (''gemini-pro'', JNum T)]))
   \<and>
   (fileState fs = Text raw \<and> parse raw = Some data
      \<and> getProp data ''version'' = Inr (JNum 2) \<and> getProp data ''accounts'' = Inr (JArr accs)
      \<and> list_all (\<lambda>a. \<not> nullish a) accs \<and> writable fs \<and> i < length accs
      \<and> getProp (accs ! i) ''rateLimitResetTimes'' = Inr old
      \<and> getProp old ''gemini'' = Inr (JNum T) \<and> getProp old ''claude'' = Inr (JNum C)
    \<longrightarrow> loadedVersion parse stringify fs = Inr (JNum 3)
      \<and> loadedResetTimes parse stringify fs i
          = Inr (JObj [(''claude'', JNum C), (''gemini-flash'', JNum T), (''gemini-pro'', JNum T)]))"
proof (intro conjI impI)
  assume h: "fileState fs = Text raw \<and> parse raw = Some data
      \<and> getProp data ''version'' = Inr (JNum 1) \<and> getProp data ''accounts'' = Inr (JArr accs)
      \<and> list_all (\<lambda>a. \<not> nullish a) accs \<and> writable fs \<and> i < length accs
      \<and> getProp (accs ! i) ''isRateLimited'' = Inr (JBool True)
      \<and> getProp (accs ! i) ''rateLimitResetTime'' = Inr (JNum T) \<and> T \<noteq> 0"
  then have l: "loadedVersion parse stringify fs = Inr (JNum 3)
       \<and> loadedResetTimes parse stringify fs i = Inr (splitGemini (legacyResetTimes (accs ! i)))"
    by (intro loaded_v1 [of fs raw parse data accs i]) simp_all
  from l show "loadedVersion parse stringify fs = Inr (JNum 3)" by simp
  from l h show "loadedResetTimes parse stringify fs i
          = Inr (JObj [(''claude'', JNum T), (''gemini-flash'', JNum T), (''gemini-pro'', JNum T)])"
    by (simp add: legacy_limited)
next
  assume h: "fileState fs = Text raw \<and> parse raw = Some data
      \<and> getProp data ''version'' = Inr (JNum 1) \<and> getProp data ''accounts'' = Inr (JArr accs)
      \<and> list_all (\<lambda>a. \<not> nullish a) accs \<and> writable fs \<and> i < length accs
      \<and> getProp (accs ! i) ''isRateLimited'' = Inr r \<and> \<not> truthy r"
  then have l: "loadedVersion parse stringify fs = Inr (JNum 3)
       \<and> loadedResetTimes parse stringify fs i = Inr (splitGemini (legacyResetTimes (accs ! i)))"
    by (intro loaded_v1 [of fs raw parse data accs i]) simp_all
  from l show "loadedVersion parse stringify fs = Inr (JNum 3)" by simp
  from l h show "loadedResetTimes parse stringify fs i = Inr JUndefined"
    by (simp add: legacy_not_limited [of "accs ! i" r])
next
  assume h: "fileState fs = Text raw \<and> parse raw = Some data
      \<and> getProp data ''version'' = Inr (JNum 2) \<and> getProp data ''accounts'' = Inr (JArr accs)
      \<and> list_all (\<lambda>a. \<not> nullish a) accs \<and> writable fs \<and> i < length accs
      \<and> getProp (accs ! i) ''rateLimitResetTimes'' = Inr old
      \<and> getProp old ''gemini'' = Inr (JNum T) \<and> getProp old ''claude'' = Inr JUndefined"
  then have l: "loadedVersion parse stringify fs = Inr (JNum 3)
       \<and> loadedResetTimes parse stringify fs i
           = Inr (splitGemini (propOf (accs ! i) ''rateLimitResetTimes''))"
    by (intro loaded_v2 [of fs raw parse data accs i]) simp_all
  from l show "loadedVersion parse stringify fs = Inr (JNum 3)" by simp
  from l h show "loadedResetTimes parse stringify fs i
          = Inr (JObj [(''gemini-flash'', JNum T), (''gemini-pro'', JNum T)])"
    by (simp add: split_gemini_only [of "accs ! i" old T])
next
  assume h: "fileState fs = Text raw \<and> parse raw = Some data
      \<and> getProp data ''version'' = Inr (JNum 2) \<and> getProp data ''accounts'' = Inr (JArr accs)
      \<and> list_all (\<lambda>a. \<not> nullish a) accs \<and> writable fs \<and> i < length accs
      \<and> getProp (accs ! i) ''rateLimitResetTimes'' = Inr old
      \<and> getProp old ''gemini'' = Inr (JNum T) \<and> getProp old ''claude'' = Inr (JNum C)"
  then have l: "loadedVersion parse stringify fs = Inr (JNum 3)
       \<and> loadedResetTimes parse stringify fs i
           = Inr (splitGemini (propOf (accs ! i) ''rateLimitResetTimes''))"
    by (intro loaded_v2 [of fs raw parse data accs i]) simp_all
  from l show "loadedVersion parse stringify fs = Inr (JNum 3)" by simp
  from l h show "loadedResetTimes parse stringify fs i
          = Inr (JObj [(''claude'', JNum C), (''gemini-flash'', JNum T), (''gemini-pro'', JNum T)])"
    by (simp add: split_gemini_claude [of "accs ! i" old T C])
qed

theorem C3_migration_witness:
  "loadedVersion testParse testStringify (fileWith ''v1'' True) = Inr (JNum 3)
   \<and> loadedResetTimes testParse testStringify (fileWith ''v1'' True) 0
       = Inr (JObj [(''claude'', JNum 61000), (''gemini-flash'', JNum 61000),
                    (''gemini-pro'', JNum 61000)])
   \<and> loadedResetTimes testParse testStringify (fileWith ''v1'' True) 1 = Inr JUndefined
   \<and> loadedVersion testParse testStringify (fileWith ''v2'' True) = Inr (JNum 3)
   \<and> loadedResetTimes testParse testStringify (fileWith ''v2'' True) 0
       = Inr (JObj [(''gemini-flash'', JNum 61000), (''gemini-pro'', JNum 61000)])"
proof -
  let ?accs1 = "elements (propOf v1Document ''accounts'')"
  let ?accs2 = "elements (propOf v2Document ''accounts'')"
  note defs = fileWith_def testParse_def v1Document_def v2Document_def propOf_def
  note a = C3_migration_chain
    [where fs = "fileWith ''v1'' True" and raw = "''v1''" and parse = testParse
       and data = v1Document and accs = ?accs1 and i = 0 and T = 61000
       and stringify = testStringify]
  note b = C3_migration_chain
    [where fs = "fileWith ''v1'' True" and raw = "''v1''" and parse = testParse
       and data = v1Document and accs = ?accs1 and i = 1 and r = "JBool False"
       and stringify = testStringify]
  note c = C3_migration_chain
    [where fs = "fileWith ''v2'' True" and raw = "''v2''" and parse = testParse
       and data = v2Document and accs = ?accs2 and i = 0 and T = 61000
       and old = "JObj [(''gemini'', JNum 61000)]" and stringify = testStringify]
  have ha: "fileState (fileWith ''v1'' True) = Text ''v1'' \<and> testParse ''v1'' = Some v1Document
      \<and> getProp v1Document ''version'' = Inr (JNum 1)
      \<and> getProp v1Document ''accounts'' = Inr (JArr ?accs1)
      \<and> list_all (\<lambda>a. \<not> nullish a) ?accs1 \<and> writable (fileWith ''v1'' True) \<and> 0 < length ?accs1
      \<and> getProp (?accs1 ! 0) ''isRateLimited'' = Inr (JBool True)
      \<and> getProp (?accs1 ! 0) ''rateLimitResetTime'' = Inr (JNum 61000) \<and> (61000::rat) \<noteq> 0"
    by (simp add: defs)
  have hb: "fileState (fileWith ''v1'' True) = Text ''v1'' \<and> testParse ''v1'' = Some v1Document
      \<and> getProp v1Document ''version'' = Inr (JNum 1)
      \<and> getProp v1Document ''accounts'' = Inr (JArr ?accs1)
      \<and> list_all (\<lambda>a. \<not> nullish a) ?accs1 \<and> writable (fileWith ''v1'' True) \<and> 1 < length ?accs1
      \<and> getProp (?accs1 ! 1) ''isRateLimited'' = Inr (JBool False) \<and> \<not> truthy (JBool False)"
    by (simp add: defs)
  have hc: "fileState (fileWith ''v2'' True) = Text ''v2'' \<and> testParse ''v2'' = Some v2Document
      \<and> getProp v2Document ''version'' = Inr (JNum 2)
      \<and> getProp v2Document ''accounts'' = Inr (JArr ?accs2)
      \<and> list_all (\<lambda>a. \<not> nullish a) ?accs2 \<and> writable (fileWith ''v2'' True) \<and> 0 < length ?accs2
      \<and> getProp (?accs2 ! 0) ''rateLimitResetTimes'' = Inr (JObj [(''gemini'', JNum 61000)])
      \<and> getProp (JObj [(''gemini'', JNum 61000)]) ''gemini'' = Inr (JNum 61000)
      \<and> getProp (JObj [(''gemini'', JNum 61000)]) ''claude'' = Inr JUndefined"
    by (simp add: defs)
  show ?thesis
    using mp [OF conjunct1 [OF a] ha] mp [OF conjunct1 [OF conjunct2 [OF b]] hb]
      mp [OF conjunct1 [OF conjunct2 [OF conjunct2 [OF c]]] hc]
    by (intro conjI) simp_all
qed

theorem C3_zero_reset_time_counterexample:
  "testParse ''v1zero'' = Some v1ZeroDocument
   \<and> getProp v1ZeroDocument ''version'' = Inr (JNum 1)
   \<and> getProp (elementAt (propOf v1ZeroDocument ''accounts'') 0) ''isRateLimited''
       = Inr (JBool True)
   \<and> getProp (elementAt (propOf v1ZeroDocument ''accounts'') 0) ''rateLimitResetTime''
       = Inr (JNum 0)
   \<and> loadedVersion testParse testStringify (fileWith ''v1zero'' True) = Inr (JNum 3)
   \<and> loadedResetTimes testParse testStringify (fileWith ''v1zero'' True) 0 = Inr JUndefined
   \<and> loadedResetTimes testParse testStringify (fileWith ''v1zero'' True) 0
       \<noteq> Inr (JObj [(''claude'', JNum 0), (''gemini-flash'', JNum 0), (''gemini-pro'', JNum 0)])
   \<and> fst (loadAccounts testParse testStringify (fileWith ''v1'' False)) = Inr JNull"
  by (simp add: loadedVersion_def loadedResetTimes_def loadAccounts_def loadAccountsTry_def
      saveAccounts_def clampActiveIndex_def migrateV1ToV2_def migrateAccountV1_def
      migrateV2ToV3_def migrateAccountV2_def thenE_def elementAt_def propOf_def
      fileWith_def testParse_def v1ZeroDocument_def v1Document_def Let_def)

subsection \<open>Token refresh\<close>

lemma jsSplitFrom_bar_free:
  "CHR ''|'' \<notin> set cur \<Longrightarrow> \<forall>seg \<in> set (jsSplitFrom ''|'' cur s). CHR ''|'' \<notin> set seg"
proof (induction "''|''" cur s rule: jsSplitFrom.induct)
  case (1 cur s)
  show ?case
  proof (cases "s = []")
    case True
    then show ?thesis using "1.prems" by (simp add: jsSplitFrom_Nil)
  next
    case False
    then obtain c s' where s: "s = c # s'" by (cases s) auto
    show ?thesis
    proof (cases "c = CHR ''|''")
      case True
      then have "jsSplitFrom ''|'' cur s = cur # jsSplitFrom ''|'' [] s'"
        using s by (subst jsSplitFrom.simps) simp
      moreover have "\<forall>seg \<in> set (jsSplitFrom ''|'' [] s'). CHR ''|'' \<notin> set seg"
        using "1.hyps"(1) [OF False] True s by simp
      ultimately show ?thesis using "1.prems" by simp
    next
      case False
      then have "jsSplitFrom ''|'' cur s = jsSplitFrom ''|'' (cur @ [c]) s'"
        using s by (subst jsSplitFrom.simps) auto
      moreover have "\<forall>seg \<in> set (jsSplitFrom ''|'' (cur @ [c]) s'). CHR ''|'' \<notin> set seg"
        using "1.hyps"(2) [of ] False s "1.prems" by auto
      ultimately show ?thesis by simp
    qed
  qed
qed

lemma segmentOr_bar_free: "CHR ''|'' \<notin> set (segmentOr (jsSplit ''|'' x) i)"
  using jsSplitFrom_bar_free [of "[]" x] by (auto simp: segmentOr_def jsSplit_def)

lemma parse_cleared:
  "parseRefreshParts (formatRefreshParts
      \<lparr>refreshToken = [], projectId = projectId (parseRefreshParts x),
       managedProjectId = managedProjectId (parseRefreshParts x)\<rparr>)
   = \<lparr>refreshToken = [], projectId = projectId (parseRefreshParts x),
      managedProjectId = managedProjectId (parseRefreshParts x)\<rparr>"
proof -
  let ?p = "segmentOr (jsSplit ''|'' x) 1" and ?m = "segmentOr (jsSplit ''|'' x) 2"
  have p: "CHR ''|'' \<notin> set ?p" and m: "CHR ''|'' \<notin> set ?m"
    by (rule segmentOr_bar_free)+
  have e: "CHR ''|'' \<notin> set []" by simp
  have fields: "projectId (parseRefreshParts x) = orUndefined ?p"
    "managedProjectId (parseRefreshParts x) = orUndefined ?m"
    by (simp_all add: parseRefreshParts_def Let_def)
  show ?thesis
  proof (cases "?m = []")
    case True
    then have none: "orUndefined ?m = None" by (simp add: orUndefined_def)
    show ?thesis
      unfolding fields none format_two
      using parse_two [OF e p] by simp
  next
    case False
    show ?thesis
      unfolding fields format_three [OF False]
      using parse_three [OF e p m] by simp
  qed
qed

lemma refresh_invalid_grant:
  assumes "refreshToken (parseRefreshParts (authRefresh auth)) \<noteq> []" "clientSecret \<noteq> []"
    "code (parseOAuthErrorPayload parse errorText) = JStr ''invalid_grant''"
  shows "refreshAccessToken clientSecret parse now (HttpFailure status statusText errorText) auth w
     = (None, snd (authSet ANTIGRAVITY_PROVIDER_ID
          \<lparr>authRefresh = formatRefreshParts
             \<lparr>refreshToken = [], projectId = projectId (parseRefreshParts (authRefresh auth)),
              managedProjectId = managedProjectId (parseRefreshParts (authRefresh auth))\<rparr>,
           authAccess = [], authExpires = 0\<rparr>
          (invalidateProjectContextCache (Some (authRefresh auth)) w)))"
  using assms by (simp add: refreshAccessToken_def Let_def)

lemma refresh_nonempty: "refreshToken (parseRefreshParts x) \<noteq> [] \<Longrightarrow> x \<noteq> []"
  by (auto simp: parseRefreshParts_def jsSplit_def jsSplitFrom_Nil segmentOr_def)

text \<open>
  C7. When the request was made (the refresh token and the client secret are not empty)
  and the token endpoint answers with a failure whose parsed payload carries the code
  \<open>invalid_grant\<close>, \<open>refreshAccessToken\<close> calls \<open>client.auth.set\<close> once with a
  credential whose access token is empty and whose refresh string has an empty refresh
  token and the project id and managed project id of the old one, removes the
  project-context cache entries keyed by the old refresh string, and returns
  \<open>undefined\<close>. On a network error, and on a failure with any other code, it returns
  \<open>undefined\<close> and changes nothing. On success the returned credential carries the
  original refresh token, or the rotated one when the payload has a \<open>refresh_token\<close>,
  with the same project ids, and \<open>client.auth.set\<close> is not called.
\<close>

theorem C7_refresh_failure_handling:
  "(refreshToken (parseRefreshParts (authRefresh auth)) \<noteq> [] \<and> clientSecret \<noteq> []
      \<and> code (parseOAuthErrorPayload parse errorText) = JStr ''invalid_grant''
    \<longrightarrow> fst (refreshAccessToken clientSecret parse now (HttpFailure status statusText errorText) auth w)
          = None
      \<and> authSetCalls (snd (refreshAccessToken clientSecret parse now
              (HttpFailure status statusText errorText) auth w))
          = authSetCalls w @
             [(ANTIGRAVITY_PROVIDER_ID,
               \<lparr>authRefresh = formatRefreshParts
                  \<lparr>refreshToken = [], projectId = projectId (parseRefreshParts (authRefresh auth)),
                   managedProjectId = managedProjectId (parseRefreshParts (authRefresh auth))\<rparr>,
                authAccess = [], authExpires = 0\<rparr>)]
      \<and> parseRefreshParts (formatRefreshParts
              \<lparr>refreshToken = [], projectId = projectId (parseRefreshParts (authRefresh auth)),
               managedProjectId = managedProjectId (parseRefreshParts (authRefresh auth))\<rparr>)
          = \<lparr>refreshToken = [], projectId = projectId (parseRefreshParts (authRefresh auth)),
             managedProjectId = managedProjectId (parseRefreshParts (authRefresh auth))\<rparr>
      \<and> projectContextResultCache (snd (refreshAccessToken clientSecret parse now
              (HttpFailure status statusText errorText) auth w)) (authRefresh auth) = None
      \<and> authRefresh auth \<notin> projectContextPendingCache (snd (refreshAccessToken clientSecret parse now
              (HttpFailure status statusText errorText) auth w)))
   \<and>
   (outcome = NetworkError
      \<or> (outcome = HttpFailure status statusText errorText
          \<and> code (parseOAuthErrorPayload parse errorText) \<noteq> JStr ''invalid_grant'')
    \<longrightarrow> refreshAccessToken clientSecret parse now outcome auth w = (None, w))
   \<and>
   (refreshToken (parseRefreshParts (authRefresh auth)) \<noteq> [] \<and> clientSecret \<noteq> []
    \<longrightarrow> map_option authRefresh
          (fst (refreshAccessToken clientSecret parse now (HttpSuccess (Some payload)) auth w))
          = Some (formatRefreshParts
              \<lparr>refreshToken =
                 (case refresh_token payload of
                    None \<Rightarrow> refreshToken (parseRefreshParts (authRefresh auth))
                  | Some r \<Rightarrow> r),
               projectId = projectId (parseRefreshParts (authRefresh auth)),
               managedProjectId = managedProjectId (parseRefreshParts (authRefresh auth))\<rparr>)
      \<and> map_option authAccess
          (fst (refreshAccessToken clientSecret parse now (HttpSuccess (Some payload)) auth w))
          = Some (access_token payload)
      \<and> authSetCalls (snd (refreshAccessToken clientSecret parse now
              (HttpSuccess (Some payload)) auth w)) = authSetCalls w)"
proof (intro conjI impI)
  assume h: "refreshToken (parseRefreshParts (authRefresh auth)) \<noteq> [] \<and> clientSecret \<noteq> []
      \<and> code (parseOAuthErrorPayload parse errorText) = JStr ''invalid_grant''"
  then have r: "refreshAccessToken clientSecret parse now (HttpFailure status statusText errorText) auth w
     = (None, snd (authSet ANTIGRAVITY_PROVIDER_ID
          \<lparr>authRefresh = formatRefreshParts
             \<lparr>refreshToken = [], projectId = projectId (parseRefreshParts (authRefresh auth)),
              managedProjectId = managedProjectId (parseRefreshParts (authRefresh auth))\<rparr>,
           authAccess = [], authExpires = 0\<rparr>
          (invalidateProjectContextCache (Some (authRefresh auth)) w)))"
    by (intro refresh_invalid_grant) simp_all
  have ne: "authRefresh auth \<noteq> []"
    using h refresh_nonempty by blast
  show "fst (refreshAccessToken clientSecret parse now (HttpFailure status statusText errorText) auth w)
          = None"
    by (simp add: r)
  show "authSetCalls (snd (refreshAccessToken clientSecret parse now
              (HttpFailure status statusText errorText) auth w))
          = authSetCalls w @
             [(ANTIGRAVITY_PROVIDER_ID,
               \<lparr>authRefresh = formatRefreshParts
                  \<lparr>refreshToken = [], projectId = projectId (parseRefreshParts (authRefresh auth)),
                   managedProjectId = managedProjectId (parseRefreshParts (authRefresh auth))\<rparr>,
                authAccess = [], authExpires = 0\<rparr>)]"
    using ne by (simp add: r authSet_def invalidateProjectContextCache_def Let_def)
  show "parseRefreshParts (formatRefreshParts
              \<lparr>refreshToken = [], projectId = projectId (parseRefreshParts (authRefresh auth)),
               managedProjectId = managedProjectId (parseRefreshParts (authRefresh auth))\<rparr>)
          = \<lparr>refreshToken = [], projectId = projectId (parseRefreshParts (authRefresh auth)),
             managedProjectId = managedProjectId (parseRefreshParts (authRefresh auth))\<rparr>"
    by (rule parse_cleared)
  show "projectContextResultCache (snd (refreshAccessToken clientSecret parse now
              (HttpFailure status statusText errorText) auth w)) (authRefresh auth) = None"
    using ne by (simp add: r authSet_def invalidateProjectContextCache_def Let_def)
  show "authRefresh auth \<notin> projectContextPendingCache (snd (refreshAccessToken clientSecret parse now
              (HttpFailure status statusText errorText) auth w))"
    using ne by (simp add: r authSet_def invalidateProjectContextCache_def Let_def)
next
  assume "outcome = NetworkError
      \<or> (outcome = HttpFailure status statusText errorText
          \<and> code (parseOAuthErrorPayload parse errorText) \<noteq> JStr ''invalid_grant'')"
  then show "refreshAccessToken clientSecret parse now outcome auth w = (None, w)"
    by (auto simp: refreshAccessToken_def Let_def)
next
  assume h: "refreshToken (parseRefreshParts (authRefresh auth)) \<noteq> [] \<and> clientSecret \<noteq> []"
  have ne: "authRefresh auth \<noteq> []"
    using h refresh_nonempty by blast
  show "map_option authRefresh
          (fst (refreshAccessToken clientSecret parse now (HttpSuccess (Some payload)) auth w))
          = Some (formatRefreshParts
              \<lparr>refreshToken =
                 (case refresh_token payload of
                    None \<Rightarrow> refreshToken (parseRefreshParts (authRefresh auth))
                  | Some r \<Rightarrow> r),
               projectId = projectId (parseRefreshParts (authRefresh auth)),
               managedProjectId = managedProjectId (parseRefreshParts (authRefresh auth))\<rparr>)"
    using h by (simp add: refreshAccessToken_def Let_def)
  show "map_option authAccess
          (fst (refreshAccessToken clientSecret parse now (HttpSuccess (Some payload)) auth w))
          = Some (access_token payload)"
    using h by (simp add: refreshAccessToken_def Let_def)
  show "authSetCalls (snd (refreshAccessToken clientSecret parse now
              (HttpSuccess (Some payload)) auth w)) = authSetCalls w"
    using h ne
    by (simp add: refreshAccessToken_def Let_def invalidateProjectContextCache_def
        storeCachedAuth_def split: option.splits)
qed

theorem C7_refresh_witness:
  "fst (refreshAccessToken ''secret'' errorBodyParse 1000
          (HttpFailure 400 ''Bad Request'' (Some ''{error: invalid_grant}'')) revokedAuth cachedWorld)
     = None
   \<and> authSetCalls (snd (refreshAccessToken ''secret'' errorBodyParse 1000
          (HttpFailure 400 ''Bad Request'' (Some ''{error: invalid_grant}'')) revokedAuth cachedWorld))
     = [(''google'', \<lparr>authRefresh = ''|proj|managed'', authAccess = [], authExpires = 0\<rparr>)]
   \<and> projectContextResultCache cachedWorld ''tok|proj|managed''
     = Some \<lparr>contextAuth = revokedAuth, effectiveProjectId = ''proj''\<rparr>
   \<and> projectContextResultCache (snd (refreshAccessToken ''secret'' errorBodyParse 1000
          (HttpFailure 400 ''Bad Request'' (Some ''{error: invalid_grant}'')) revokedAuth cachedWorld))
        ''tok|proj|managed'' = None
   \<and> refreshAccessToken ''secret'' errorBodyParse 1000 NetworkError revokedAuth cachedWorld
     = (None, cachedWorld)
   \<and> refreshAccessToken ''secret'' errorBodyParse 1000
        (HttpFailure 401 ''Unauthorized'' (Some ''{error: invalid_client}'')) revokedAuth cachedWorld
     = (None, cachedWorld)
   \<and> map_option authRefresh (fst (refreshAccessToken ''secret'' errorBodyParse 1000
        (HttpSuccess (Some \<lparr>access_token = ''new'', expires_in = 3600, refresh_token = None\<rparr>))
        revokedAuth cachedWorld)) = Some ''tok|proj|managed''
   \<and> map_option authRefresh (fst (refreshAccessToken ''secret'' errorBodyParse 1000
        (HttpSuccess (Some \<lparr>access_token = ''new'', expires_in = 3600,
                              refresh_token = Some ''rotated''\<rparr>))
        revokedAuth cachedWorld)) = Some ''rotated|proj|managed''"
proof -
  note ev = parseRefreshParts_def jsSplit_def jsSplitFrom.simps segmentOr_def orUndefined_def
    formatRefreshParts_def revokedAuth_def
  have ps: "parseRefreshParts (authRefresh revokedAuth)
      = \<lparr>refreshToken = ''tok'', projectId = Some ''proj'', managedProjectId = Some ''managed''\<rparr>"
    by (simp add: ev)
  have grant: "code (parseOAuthErrorPayload errorBodyParse (Some ''{error: invalid_grant}''))
      = JStr ''invalid_grant''"
    by (simp add: parseOAuthErrorPayload_def errorBodyParse_def propOf_def Let_def)
  have other: "code (parseOAuthErrorPayload errorBodyParse (Some ''{error: invalid_client}''))
      \<noteq> JStr ''invalid_grant''"
    by (simp add: parseOAuthErrorPayload_def errorBodyParse_def propOf_def Let_def)
  have h1: "refreshToken (parseRefreshParts (authRefresh revokedAuth)) \<noteq> [] \<and> ''secret'' \<noteq> []
      \<and> code (parseOAuthErrorPayload errorBodyParse (Some ''{error: invalid_grant}''))
          = JStr ''invalid_grant''"
    using grant by (simp add: ps)
  have h2: "(NetworkError = NetworkError
      \<or> (NetworkError = HttpFailure 401 ''Unauthorized'' (Some ''{error: invalid_client}'')
          \<and> code (parseOAuthErrorPayload errorBodyParse (Some ''{error: invalid_client}''))
              \<noteq> JStr ''invalid_grant''))"
    by simp
  have h3: "(HttpFailure 401 ''Unauthorized'' (Some ''{error: invalid_client}'') = NetworkError
      \<or> (HttpFailure 401 ''Unauthorized'' (Some ''{error: invalid_client}'')
            = HttpFailure 401 ''Unauthorized'' (Some ''{error: invalid_client}'')
          \<and> code (parseOAuthErrorPayload errorBodyParse (Some ''{error: invalid_client}''))
              \<noteq> JStr ''invalid_grant''))"
    using other by simp
  have h4: "refreshToken (parseRefreshParts (authRefresh revokedAuth)) \<noteq> [] \<and> ''secret'' \<noteq> []"
    by (simp add: ps)
  note a = C7_refresh_failure_handling
    [where auth = revokedAuth and clientSecret = "''secret''" and parse = errorBodyParse
       and errorText = "Some ''{error: invalid_grant}''" and now = 1000 and status = 400
       and statusText = "''Bad Request''" and w = cachedWorld]
  note b = C7_refresh_failure_handling
    [where auth = revokedAuth and clientSecret = "''secret''" and parse = errorBodyParse
       and errorText = "Some ''{error: invalid_client}''" and now = 1000 and status = 401
       and statusText = "''Unauthorized''" and w = cachedWorld and outcome = NetworkError]
  note c = C7_refresh_failure_handling
    [where auth = revokedAuth and clientSecret = "''secret''" and parse = errorBodyParse
       and errorText = "Some ''{error: invalid_client}''" and now = 1000 and status = 401
       and statusText = "''Unauthorized''" and w = cachedWorld
       and outcome = "HttpFailure 401 ''Unauthorized'' (Some ''{error: invalid_client}'')"]
  note d = C7_refresh_failure_handling
    [where auth = revokedAuth and clientSecret = "''secret''" and parse = errorBodyParse
       and now = 1000 and w = cachedWorld
       and payload = "\<lparr>access_token = ''new'', expires_in = 3600, refresh_token = None\<rparr>"]
  note e = C7_refresh_failure_handling
    [where auth = revokedAuth and clientSecret = "''secret''" and parse = errorBodyParse
       and now = 1000 and w = cachedWorld
       and payload = "\<lparr>access_token = ''new'', expires_in = 3600,
                        refresh_token = Some ''rotated''\<rparr>"]
  have cw: "authSetCalls cachedWorld = []"
    "projectContextResultCache cachedWorld ''tok|proj|managed''
       = Some \<lparr>contextAuth = revokedAuth, effectiveProjectId = ''proj''\<rparr>"
    by (simp_all add: cachedWorld_def emptyWorld_def)
  have authRefresh_revoked: "authRefresh revokedAuth = ''tok|proj|managed''"
    by (simp add: revokedAuth_def)
  have ps': "parseRefreshParts ''tok|proj|managed''
      = \<lparr>refreshToken = ''tok'', projectId = Some ''proj'', managedProjectId = Some ''managed''\<rparr>"
    using ps by (simp add: authRefresh_revoked)
  show ?thesis
    using mp [OF conjunct1 [OF a] h1] mp [OF conjunct1 [OF conjunct2 [OF b]] h2]
      mp [OF conjunct1 [OF conjunct2 [OF c]] h3] mp [OF conjunct2 [OF conjunct2 [OF d]] h4]
      mp [OF conjunct2 [OF conjunct2 [OF e]] h4] cw
    by (auto simp: ps ps' formatRefreshParts_def ANTIGRAVITY_PROVIDER_ID_def
        authRefresh_revoked)
qed

subsection \<open>Thinking parts in the Claude transform\<close>








































subsection \<open>Tool names and the schema cache\<close>












lemma isObject_setProp: "isObject (setProp v k x) = isObject v"
  by (cases v) simp_all

























end
